theory Spec2Isabelle
  imports Complex_Main
begin

section \<open>Python strings\<close>

text \<open>
  A Python \<open>str\<close> is modelled as a \<open>string\<close>, one \<open>char\<close> per code point; the
  model covers the code points below 256. The library functions used by
  \<open>src/podcast/text_to_speech.py\<close> are written out below.
\<close>

text \<open>
  \<open>str.isspace\<close> on one character, which is also what \<open>str.strip()\<close> and
  \<open>str.split()\<close> without argument and the regular expression \<open>\s\<close> recognise:
  code points 9 to 13, 28 to 32, 133 and 160.
\<close>

definition is_space :: "char \<Rightarrow> bool" where
  "is_space c = (of_char c \<in> set [9, 10, 11, 12, 13, 28, 29, 30, 31, 32, 133, 160 :: nat])"

text \<open>The character class \<open>[.!?]\<close>, also the tuple given to \<open>endswith\<close>.\<close>

definition is_terminal :: "char \<Rightarrow> bool" where
  "is_terminal c = (c = CHR ''.'' \<or> c = CHR ''!'' \<or> c = CHR ''?'')"

text \<open>\<open>s.strip()\<close>: leading and trailing whitespace removed.\<close>

definition strip :: "string \<Rightarrow> string" where
  "strip s = rev (dropWhile is_space (rev (dropWhile is_space s)))"

text \<open>\<open>s.endswith(('.', '!', '?'))\<close>: false on the empty string.\<close>

definition endswith_terminal :: "string \<Rightarrow> bool" where
  "endswith_terminal s = (s \<noteq> [] \<and> is_terminal (last s))"

text \<open>
  \<open>s.replace(old, new)\<close>: the occurrences of \<open>old\<close> are found from the left and do
  not overlap. With an empty \<open>old\<close>, Python puts \<open>new\<close> before every character and
  at the end.
\<close>

function replace_from :: "string \<Rightarrow> string \<Rightarrow> string \<Rightarrow> string" where
  "replace_from old new [] = []"
| "replace_from old new (c # cs) =
     (if old \<noteq> [] \<and> take (length old) (c # cs) = old
      then new @ replace_from old new (drop (length old) (c # cs))
      else c # replace_from old new cs)"
  by pat_completeness auto
termination
  by (relation "measure (\<lambda>(old, new, s). length s)") auto

definition replace :: "string \<Rightarrow> string \<Rightarrow> string \<Rightarrow> string" where
  "replace s old new =
     (if old = [] then new @ concat (map (\<lambda>c. c # new) s) else replace_from old new s)"

section \<open>Text Normalizer\<close>

text \<open>
  \<open>PodcastTTSGenerator._clean_text_for_tts\<close> (lines 182 to 192). None of its steps
  can raise on a \<open>str\<close>, so the model has no error branch.
\<close>

definition clean_text_for_tts :: "string \<Rightarrow> string" where
  "clean_text_for_tts text =
     (let clean_text = strip text;
          clean_text = replace clean_text ''...'' ''.'';
          clean_text = replace clean_text ''!!'' ''!'';
          clean_text = replace clean_text ''??'' ''?''
      in if \<not> endswith_terminal clean_text then clean_text @ ''.'' else clean_text)"

section \<open>Phase Splitter\<close>

text \<open>
  \<open>re.split(r'[.!?]+\s+', text)\<close>. A match starts at a terminal character whose
  maximal run of terminal characters is followed by whitespace, and it extends over the
  whole run of whitespace; a run of terminal characters not followed by whitespace is
  ordinary text (no shorter run can match, since the character after it is terminal, not
  whitespace). The pieces between the matches are returned, the first and the last one
  possibly empty. \<open>piece\<close> is the text read since the last match.
\<close>

fun starts_with_space :: "string \<Rightarrow> bool" where
  "starts_with_space [] = False"
| "starts_with_space (d # ds) = is_space d"

function re_split_from :: "string \<Rightarrow> string \<Rightarrow> string list" where
  "re_split_from piece [] = [piece]"
| "re_split_from piece (c # cs) =
     (if is_terminal c
      then (if starts_with_space (dropWhile is_terminal cs)
            then piece # re_split_from [] (dropWhile is_space (dropWhile is_terminal cs))
            else re_split_from (piece @ c # takeWhile is_terminal cs) (dropWhile is_terminal cs))
      else re_split_from (piece @ [c]) cs)"
  by pat_completeness auto
termination
  by (relation "measure (\<lambda>(piece, s). length s)")
     (auto simp: less_Suc_eq_le length_dropWhile_le intro: order_trans [OF length_dropWhile_le])

definition re_split_sentences :: "string \<Rightarrow> string list" where
  "re_split_sentences text = re_split_from [] text"

text \<open>\<open>s.split()\<close>: the maximal runs of characters that are not whitespace.\<close>

fun split_from :: "string \<Rightarrow> string \<Rightarrow> string list" where
  "split_from w [] = (if w = [] then [] else [w])"
| "split_from w (c # cs) =
     (if is_space c then (if w = [] then split_from [] cs else w # split_from [] cs)
      else split_from (w @ [c]) cs)"

definition split_whitespace :: "string \<Rightarrow> string list" where
  "split_whitespace s = split_from [] s"

text \<open>
  \<open>ChatterboxTTSGenerator._split_text_into_phases\<close> (lines 318 to 360).
  The first loop (lines 325 to 337) over the sentences, with the variables \<open>phases\<close> and
  \<open>current_phase\<close> as accumulators; it returns both.
\<close>

fun accumulate_sentences ::
  "int \<Rightarrow> string list \<Rightarrow> string \<Rightarrow> string list \<Rightarrow> string list \<times> string" where
  "accumulate_sentences max_chars phases current_phase [] = (phases, current_phase)"
| "accumulate_sentences max_chars phases current_phase (s # ss) =
     (let sentence = strip s in
      if sentence = [] then accumulate_sentences max_chars phases current_phase ss
      else
        let sentence = (if \<not> endswith_terminal sentence then sentence @ ''.'' else sentence) in
        if int (length current_phase) + int (length sentence) > max_chars \<and> current_phase \<noteq> []
        then accumulate_sentences max_chars (phases @ [strip current_phase]) sentence ss
        else accumulate_sentences max_chars phases
               (if current_phase \<noteq> [] then current_phase @ '' '' @ sentence else sentence) ss)"

text \<open>Lines 320 to 340: the phases after the first loop.\<close>

definition sentence_phases :: "string \<Rightarrow> int \<Rightarrow> string list" where
  "sentence_phases text max_chars =
     (case accumulate_sentences max_chars [] [] (re_split_sentences text) of
        (phases, current_phase) \<Rightarrow>
          if strip current_phase \<noteq> [] then phases @ [strip current_phase] else phases)"

text \<open>The inner loop over the words of one long phase (lines 348 to 353).\<close>

fun accumulate_words ::
  "int \<Rightarrow> string list \<Rightarrow> string \<Rightarrow> string list \<Rightarrow> string list \<times> string" where
  "accumulate_words max_chars final_phases current_chunk [] = (final_phases, current_chunk)"
| "accumulate_words max_chars final_phases current_chunk (word # ws) =
     (if int (length current_chunk) + int (length word) + 1 > max_chars \<and> current_chunk \<noteq> []
      then accumulate_words max_chars (final_phases @ [strip current_chunk]) word ws
      else accumulate_words max_chars final_phases
             (if current_chunk \<noteq> [] then current_chunk @ '' '' @ word else word) ws)"

text \<open>Lines 346 to 356: one phase longer than 1.5 times the bound, split by words.\<close>

definition split_phase_by_words :: "int \<Rightarrow> string list \<Rightarrow> string \<Rightarrow> string list" where
  "split_phase_by_words max_chars final_phases phase =
     (case accumulate_words max_chars final_phases [] (split_whitespace phase) of
        (final_phases, current_chunk) \<Rightarrow>
          if strip current_chunk \<noteq> [] then final_phases @ [strip current_chunk]
          else final_phases)"

text \<open>
  The second loop (lines 344 to 358). The test \<open>len(phase) > max_chars_per_phase * 1.5\<close>
  compares an integer with a float product; it is written here over the integers, as
  \<open>2 * len(phase) > 3 * max_chars_per_phase\<close>, which is the same comparison as long as
  the product is exact in double precision.
\<close>

fun split_long_phases :: "int \<Rightarrow> string list \<Rightarrow> string list \<Rightarrow> string list" where
  "split_long_phases max_chars final_phases [] = final_phases"
| "split_long_phases max_chars final_phases (phase # ps) =
     (if 2 * int (length phase) > 3 * max_chars
      then split_long_phases max_chars (split_phase_by_words max_chars final_phases phase) ps
      else split_long_phases max_chars (final_phases @ [phase]) ps)"

definition split_text_into_phases :: "string \<Rightarrow> int \<Rightarrow> string list" where
  "split_text_into_phases text max_chars_per_phase =
     split_long_phases max_chars_per_phase [] (sentence_phases text max_chars_per_phase)"

text \<open>
  \<open>str.lower\<close> on the code points below 256: the letters \<open>A\<close> to \<open>Z\<close> and the
  accented capitals 192 to 222 (215, the multiplication sign, apart) move up by 32.
\<close>

definition lower_char :: "char \<Rightarrow> char" where
  "lower_char c =
     (let n = (of_char c :: nat)
      in if (65 \<le> n \<and> n \<le> 90) \<or> (192 \<le> n \<and> n \<le> 222 \<and> n \<noteq> 215)
         then char_of (n + 32) else c)"

definition lower :: "string \<Rightarrow> string" where
  "lower s = map lower_char s"

text \<open>The decimal digits of a natural number, and the format \<open>{n:03d}\<close>.\<close>

function decimal :: "nat \<Rightarrow> string" where
  "decimal n =
     (if n < 10 then [char_of (48 + n)] else decimal (n div 10) @ [char_of (48 + n mod 10)])"
  by pat_completeness auto
termination
  by (relation "measure (\<lambda>n. n)") auto

definition format_03d :: "nat \<Rightarrow> string" where
  "format_03d n = replicate (3 - length (decimal n)) (CHR ''0'') @ decimal n"

text \<open>\<open>os.path.join(a, b)\<close> of \<open>posixpath\<close>, for two components.\<close>

definition os_path_join :: "string \<Rightarrow> string \<Rightarrow> string" where
  "os_path_join a b =
     (if b \<noteq> [] \<and> hd b = CHR ''/'' then b
      else if a = [] \<or> last a = CHR ''/'' then a @ b
      else a @ ''/'' @ b)"

section \<open>Audio, files and errors\<close>

text \<open>
  A waveform is the list of its samples; the code only concatenates waveforms and builds
  silence with \<open>zeros\<close>. \<open>sf.write(path, data, rate)\<close> stores the data and the rate under
  the path; directories, \<open>Path.mkdir\<close> and failures of the disk are not modelled.
\<close>

type_synonym samples = "real list"

type_synonym files = "string \<rightharpoonup> samples \<times> nat"

text \<open>
  The exceptions of the code: the ones it raises itself, the ones of the Python
  operations it uses, and \<open>BackendError\<close> for whatever an external model raises.
\<close>

datatype py_error =
    ImportError
  | FileNotFoundError
  | StopIteration
  | ValueError
  | IndexError
  | ZeroDivisionError
  | BackendError string

text \<open>
  The dataclass \<open>AudioSegment\<close> (lines 47 to 54); its field \<open>text\<close> is \<open>text_field\<close>
  here.
\<close>

record AudioSegment =
  speaker :: string
  text_field :: string
  audio_data :: samples
  duration :: real
  file_path :: string

text \<open>
  The dataclass \<open>PodcastScript\<close> of \<open>script_generator.py\<close>. A line of the script is a
  dict, kept as the list of its items in order.
\<close>

type_synonym line_dict = "(string \<times> string) list"

record PodcastScript =
  script :: "line_dict list"
  source_document :: string
  total_lines :: int
  estimated_duration :: string

text \<open>The local variables of \<open>generate_podcast_audio\<close> and the files on disk.\<close>

record run_state =
  audio_segments :: "AudioSegment list"
  output_files :: "string list"
  files :: files

text \<open>
  \<open>f"segment_{i+1:03d}_{speaker.replace(' ', '_').lower()}.wav"\<close>, where \<open>i\<close> is the
  index that \<open>enumerate\<close> gives, from 0. The local variable \<open>speaker\<close> is written
  \<open>spkr\<close>, the name \<open>speaker\<close> being the field of \<open>AudioSegment\<close>.
\<close>

definition segment_filename :: "nat \<Rightarrow> string \<Rightarrow> string" where
  "segment_filename i spkr =
     ''segment_'' @ format_03d (i + 1) @ ''_'' @ lower (replace spkr '' '' ''_'') @ ''.wav''"

text \<open>
  The loop of \<open>_combine_audio_segments\<close> (lines 209 to 213 and 476 to 480, the same in
  both classes): \<open>n\<close> is \<open>len(segments)\<close>, \<open>i\<close> the index of \<open>enumerate\<close>.
\<close>

fun combine_loop :: "samples \<Rightarrow> nat \<Rightarrow> nat \<Rightarrow> AudioSegment list \<Rightarrow> samples list \<Rightarrow> samples list" where
  "combine_loop pause_audio n i [] combined_audio = combined_audio"
| "combine_loop pause_audio n i (segment # rest) combined_audio =
     (let combined_audio = combined_audio @ [audio_data segment];
          combined_audio =
            (if int i < int n - 1 then combined_audio @ [pause_audio] else combined_audio)
      in combine_loop pause_audio n (i + 1) rest combined_audio)"

text \<open>
  \<open>_combine_audio_segments\<close> (lines 194 to 228 and 460 to 495). The two classes differ
  in the pause (0.2 s and 0.5 s) and in the name of the rate (\<open>self.sample_rate\<close> and
  \<open>self.sr\<close>). \<open>pause_samples\<close> is the value of \<open>int(pause_duration * rate)\<close>, a product
  in double precision, taken as a parameter. \<open>np.concatenate\<close> raises \<open>ValueError\<close> on an
  empty list; the duration logged after the write divides by the rate; both are raised
  again by the \<open>except\<close> clause.
\<close>

definition combine_audio_segments ::
  "nat \<Rightarrow> nat \<Rightarrow> AudioSegment list \<Rightarrow> string \<Rightarrow> files \<Rightarrow> (py_error + string) \<times> files" where
  "combine_audio_segments pause_samples rate segments output_dir fs =
     (let pause_audio = replicate pause_samples 0;
          combined_audio = combine_loop pause_audio (length segments) 0 segments []
      in if combined_audio = [] then (Inl ValueError, fs)
         else
           let final_audio = concat combined_audio;
               combined_filename = ''complete_podcast.wav'';
               combined_path = os_path_join output_dir combined_filename;
               fs = fs(combined_path \<mapsto> (final_audio, rate))
           in if rate = 0 then (Inl ZeroDivisionError, fs)
              else (Inr combined_path, fs))"

section \<open>Fixed-voice engine\<close>

text \<open>
  \<open>PodcastTTSGenerator\<close>. \<open>pipeline\<close> is the Kokoro pipeline called on a text and a
  voice, with the audio chunks it yields collected in order, or the error it raises.
\<close>

record PodcastTTSGenerator =
  sample_rate :: nat
  pipeline :: "string \<Rightarrow> string \<Rightarrow> py_error + samples list"
  default_voice :: string

text \<open>\<open>_generate_single_segment\<close> (lines 165 to 180).\<close>

definition generate_single_segment ::
  "PodcastTTSGenerator \<Rightarrow> string \<Rightarrow> string \<Rightarrow> py_error + samples" where
  "generate_single_segment self spkr text =
     (let voice = default_voice self;
          clean_text = clean_text_for_tts text
      in case pipeline self clean_text voice of
           Inl e \<Rightarrow> Inl e
         | Inr combined_audio \<Rightarrow>
             if length combined_audio = 1 then Inr (hd combined_audio)
             else if combined_audio = [] then Inl ValueError
             else Inr (concat combined_audio))"

text \<open>
  The body of the \<open>try\<close> of \<open>generate_podcast_audio\<close> (lines 94 to 116) for one line.
  An exception leaves the state as it is at that point and the loop goes on.
\<close>

definition podcast_try_segment ::
  "PodcastTTSGenerator \<Rightarrow> string \<Rightarrow> bool \<Rightarrow> nat \<Rightarrow> string \<Rightarrow> string \<Rightarrow> run_state \<Rightarrow> run_state" where
  "podcast_try_segment self output_dir combine_audio i spkr dialogue st =
     (case generate_single_segment self spkr dialogue of
        Inl e \<Rightarrow> st
      | Inr segment_audio \<Rightarrow>
          let segment_path = os_path_join output_dir (segment_filename i spkr);
              st = st\<lparr>files := (files st)(segment_path \<mapsto> (segment_audio, sample_rate self)),
                      output_files := output_files st @ [segment_path]\<rparr>
          in if combine_audio
             then (if sample_rate self = 0 then st
                   else st\<lparr>audio_segments := audio_segments st @
                          [\<lparr>speaker = spkr, text_field = dialogue, audio_data = segment_audio,
                            duration = real (length segment_audio) / real (sample_rate self),
                            file_path = segment_path\<rparr>]\<rparr>)
             else st)"

text \<open>
  The loop of lines 89 to 116. \<open>next(iter(line_dict.items()))\<close> stands before the
  \<open>try\<close>: on an empty dict it raises \<open>StopIteration\<close>, which ends the run.
\<close>

fun podcast_loop ::
  "PodcastTTSGenerator \<Rightarrow> string \<Rightarrow> bool \<Rightarrow> nat \<Rightarrow> line_dict list \<Rightarrow> run_state \<Rightarrow>
   py_error option \<times> run_state" where
  "podcast_loop self output_dir combine_audio i [] st = (None, st)"
| "podcast_loop self output_dir combine_audio i ([] # rest) st = (Some StopIteration, st)"
| "podcast_loop self output_dir combine_audio i (((spkr, dialogue) # items) # rest) st =
     podcast_loop self output_dir combine_audio (i + 1) rest
       (podcast_try_segment self output_dir combine_audio i spkr dialogue st)"

text \<open>
  \<open>PodcastTTSGenerator.generate_podcast_audio\<close> (lines 74 to 123); \<open>pause_samples\<close> is
  passed on to \<open>_combine_audio_segments\<close>.
\<close>

definition podcast_generate_podcast_audio ::
  "nat \<Rightarrow> PodcastTTSGenerator \<Rightarrow> PodcastScript \<Rightarrow> string \<Rightarrow> bool \<Rightarrow> files \<Rightarrow>
   (py_error + string list) \<times> files" where
  "podcast_generate_podcast_audio pause_samples self podcast_script output_dir combine_audio fs =
     (case podcast_loop self output_dir combine_audio 0 (script podcast_script)
             \<lparr>audio_segments = [], output_files = [], files = fs\<rparr> of
        (Some e, st) \<Rightarrow> (Inl e, files st)
      | (None, st) \<Rightarrow>
          if combine_audio \<and> audio_segments st \<noteq> []
          then (case combine_audio_segments pause_samples (sample_rate self)
                       (audio_segments st) output_dir (files st) of
                  (Inl e, fs') \<Rightarrow> (Inl e, fs')
                | (Inr combined_path, fs') \<Rightarrow> (Inr (output_files st @ [combined_path]), fs'))
          else (Inr (output_files st), files st))"

section \<open>Voice-cloning engine\<close>

text \<open>
  The loaded Chatterbox model: its sample rate and \<open>model.generate(text)\<close> or
  \<open>model.generate(text, audio_prompt_path=path)\<close>, which returns a waveform or raises.
\<close>

record chatterbox_model =
  model_sr :: nat
  generate :: "string \<Rightarrow> string option \<Rightarrow> py_error + samples"

text \<open>
  The value of the global \<open>torch.load\<close>: the library's function, or the function
  \<open>patched_torch_load\<close> of \<open>_apply_device_fixes\<close>, which wraps the function it replaced
  and maps to the device of its generator.
\<close>

datatype torch_load_fn = TorchLoad | PatchedLoad torch_load_fn string

text \<open>
  What the code reads from its surroundings: whether the Chatterbox imports succeeded,
  which accelerators torch reports, and \<open>ChatterboxTTS.from_pretrained(device=...)\<close>,
  whose result may depend on the \<open>torch.load\<close> in force.
\<close>

record torch_env =
  chatterbox_available :: bool
  cuda_is_available :: bool
  mps_is_available :: bool
  from_pretrained :: "torch_load_fn \<Rightarrow> string \<Rightarrow> py_error + chatterbox_model"

text \<open>
  The global state the constructor writes: \<open>torch.load\<close> and \<open>os.environ\<close>.
  \<open>load_calls\<close> is the trace of the calls of \<open>from_pretrained\<close>, each with its device
  and the \<open>torch.load\<close> in force at the call.
\<close>

record globals =
  torch_load :: torch_load_fn
  environ :: "string \<rightharpoonup> string"
  load_calls :: "(string \<times> torch_load_fn) list"

record ChatterboxTTSGenerator =
  device :: string
  original_torch_load :: torch_load_fn
  model :: chatterbox_model
  sr :: nat
  reference_audio_path :: "string option"

text \<open>\<open>_detect_device\<close> (lines 279 to 286).\<close>

definition detect_device :: "torch_env \<Rightarrow> string" where
  "detect_device env =
     (if cuda_is_available env then ''cuda''
      else if mps_is_available env then ''mps''
      else ''cpu'')"

text \<open>
  \<open>_apply_device_fixes\<close> (lines 288 to 298): returns the value kept in
  \<open>self.original_torch_load\<close> and the globals with the patch installed.
\<close>

definition apply_device_fixes :: "string \<Rightarrow> globals \<Rightarrow> torch_load_fn \<times> globals" where
  "apply_device_fixes dev gl =
     (torch_load gl, gl\<lparr>torch_load := PatchedLoad (torch_load gl) dev\<rparr>)"

text \<open>
  \<open>_restore_torch_load\<close> (lines 300 to 303); the attribute it tests for exists once
  \<open>_apply_device_fixes\<close> has run.
\<close>

definition restore_torch_load :: "torch_load_fn \<Rightarrow> globals \<Rightarrow> globals" where
  "restore_torch_load original gl = gl\<lparr>torch_load := original\<rparr>"

text \<open>One call of \<open>ChatterboxTTS.from_pretrained\<close>, entered in the trace.\<close>

definition load_model ::
  "torch_env \<Rightarrow> string \<Rightarrow> globals \<Rightarrow> (py_error + chatterbox_model) \<times> globals" where
  "load_model env dev gl =
     (from_pretrained env (torch_load gl) dev,
      gl\<lparr>load_calls := load_calls gl @ [(dev, torch_load gl)]\<rparr>)"

text \<open>
  \<open>ChatterboxTTSGenerator.__init__\<close> (lines 239 to 277). The argument \<open>device\<close> is
  \<open>dev_arg\<close>; \<open>None\<close> and the empty string are both false in \<open>device or ...\<close>. The
  patched function reads \<open>self.device\<close> when it is called, so the assignment
  \<open>self.device = "cpu"\<close> of line 267 changes the device it maps to. The \<open>finally\<close> clause
  runs on every way out of the \<open>try\<close>.
\<close>

definition chatterbox_init ::
  "torch_env \<Rightarrow> string option \<Rightarrow> globals \<Rightarrow> (py_error + ChatterboxTTSGenerator) \<times> globals" where
  "chatterbox_init env dev_arg gl =
     (if \<not> chatterbox_available env then (Inl ImportError, gl)
      else
        let gl = gl\<lparr>environ := (environ gl)(''PYTORCH_ENABLE_MPS_FALLBACK'' \<mapsto> ''1'')\<rparr>;
            dev = (case dev_arg of
                     Some d \<Rightarrow> if d \<noteq> [] then d else detect_device env
                   | None \<Rightarrow> detect_device env);
            (original, gl) = apply_device_fixes dev gl
        in case load_model env dev gl of
             (Inr m, gl) \<Rightarrow>
               (Inr \<lparr>device = dev, original_torch_load = original, model = m,
                     sr = model_sr m, reference_audio_path = None\<rparr>,
                restore_torch_load original gl)
           | (Inl e, gl) \<Rightarrow>
               if dev \<noteq> ''cpu''
               then (let gl = gl\<lparr>torch_load := PatchedLoad original ''cpu''\<rparr>
                     in case load_model env ''cpu'' gl of
                          (Inr m, gl) \<Rightarrow>
                            (Inr \<lparr>device = ''cpu'', original_torch_load = original, model = m,
                                  sr = model_sr m, reference_audio_path = None\<rparr>,
                             restore_torch_load original gl)
                        | (Inl e', gl) \<Rightarrow> (Inl e', restore_torch_load original gl))
               else (Inl e, restore_torch_load original gl))"

text \<open>
  \<open>set_reference_audio\<close> (lines 305 to 316). \<open>path_exists\<close> is \<open>os.path.exists\<close> on
  the file system of the moment. The result is the exception or \<open>None\<close>, with the
  generator after the call.
\<close>

definition set_reference_audio ::
  "(string \<Rightarrow> bool) \<Rightarrow> ChatterboxTTSGenerator \<Rightarrow> string \<Rightarrow>
   (py_error + unit) \<times> ChatterboxTTSGenerator" where
  "set_reference_audio path_exists self audio_path =
     (if \<not> path_exists audio_path then (Inl FileNotFoundError, self)
      else (Inr (), self\<lparr>reference_audio_path := Some audio_path\<rparr>))"

text \<open>
  The loop over the phases (lines 397 to 412). \<open>if self.reference_audio_path\<close> is
  false for \<open>None\<close> and for the empty string. The calls that free memory change nothing
  here.
\<close>

fun generate_phases ::
  "ChatterboxTTSGenerator \<Rightarrow> string list \<Rightarrow> samples list \<Rightarrow> py_error + samples list" where
  "generate_phases self [] segment_audio_parts = Inr segment_audio_parts"
| "generate_phases self (phase # rest) segment_audio_parts =
     (case (case reference_audio_path self of
              Some p \<Rightarrow> if p \<noteq> [] then generate (model self) phase (Some p)
                        else generate (model self) phase None
            | None \<Rightarrow> generate (model self) phase None) of
        Inl e \<Rightarrow> Inl e
      | Inr wav \<Rightarrow> generate_phases self rest (segment_audio_parts @ [wav]))"

text \<open>The loop of lines 422 and 423, \<open>torch.cat\<close> along the sample axis.\<close>

fun join_parts :: "samples \<Rightarrow> samples \<Rightarrow> samples list \<Rightarrow> samples" where
  "join_parts pause_audio segment_audio [] = segment_audio"
| "join_parts pause_audio segment_audio (part # rest) =
     join_parts pause_audio (segment_audio @ pause_audio @ part) rest"

text \<open>
  Lines 394 to 429: the waveform of one line. \<open>phase_pause_samples\<close> is the value of
  \<open>int(self.sr * 0.3)\<close>. With no phase at all, \<open>segment_audio_parts[0]\<close> raises
  \<open>IndexError\<close>.
\<close>

definition chatterbox_segment_audio ::
  "nat \<Rightarrow> ChatterboxTTSGenerator \<Rightarrow> string \<Rightarrow> py_error + samples" where
  "chatterbox_segment_audio phase_pause_samples self dialogue =
     (let phases = split_text_into_phases dialogue 800
      in case generate_phases self phases [] of
           Inl e \<Rightarrow> Inl e
         | Inr segment_audio_parts \<Rightarrow>
             if length segment_audio_parts > 1
             then Inr (join_parts (replicate phase_pause_samples 0)
                         (hd segment_audio_parts) (tl segment_audio_parts))
             else (case segment_audio_parts of
                     [] \<Rightarrow> Inl IndexError
                   | part # _ \<Rightarrow> Inr part))"

text \<open>The body of the \<open>try\<close> (lines 392 to 451) for one line.\<close>

definition chatterbox_try_segment ::
  "nat \<Rightarrow> ChatterboxTTSGenerator \<Rightarrow> string \<Rightarrow> bool \<Rightarrow> nat \<Rightarrow> string \<Rightarrow> string \<Rightarrow>
   run_state \<Rightarrow> run_state" where
  "chatterbox_try_segment phase_pause_samples self output_dir combine_audio i spkr dialogue st =
     (case chatterbox_segment_audio phase_pause_samples self dialogue of
        Inl e \<Rightarrow> st
      | Inr segment_audio_np \<Rightarrow>
          let segment_path = os_path_join output_dir (segment_filename i spkr);
              st = st\<lparr>files := (files st)(segment_path \<mapsto> (segment_audio_np, sr self)),
                      output_files := output_files st @ [segment_path]\<rparr>
          in if combine_audio
             then (if sr self = 0 then st
                   else st\<lparr>audio_segments := audio_segments st @
                          [\<lparr>speaker = spkr, text_field = dialogue, audio_data = segment_audio_np,
                            duration = real (length segment_audio_np) / real (sr self),
                            file_path = segment_path\<rparr>]\<rparr>)
             else st)"

text \<open>The loop of lines 387 to 451, with the unpacking of the dict before the \<open>try\<close>.\<close>

fun chatterbox_loop ::
  "nat \<Rightarrow> ChatterboxTTSGenerator \<Rightarrow> string \<Rightarrow> bool \<Rightarrow> nat \<Rightarrow> line_dict list \<Rightarrow> run_state \<Rightarrow>
   py_error option \<times> run_state" where
  "chatterbox_loop phase_pause_samples self output_dir combine_audio i [] st = (None, st)"
| "chatterbox_loop phase_pause_samples self output_dir combine_audio i ([] # rest) st =
     (Some StopIteration, st)"
| "chatterbox_loop phase_pause_samples self output_dir combine_audio i
     (((spkr, dialogue) # items) # rest) st =
     chatterbox_loop phase_pause_samples self output_dir combine_audio (i + 1) rest
       (chatterbox_try_segment phase_pause_samples self output_dir combine_audio i spkr dialogue st)"

text \<open>
  \<open>ChatterboxTTSGenerator.generate_podcast_audio\<close> (lines 362 to 458); \<open>pause_samples\<close>
  is the value of \<open>int(0.5 * self.sr)\<close> in \<open>_combine_audio_segments\<close>.
\<close>

definition chatterbox_generate_podcast_audio ::
  "nat \<Rightarrow> nat \<Rightarrow> ChatterboxTTSGenerator \<Rightarrow> PodcastScript \<Rightarrow> string \<Rightarrow> bool \<Rightarrow> files \<Rightarrow>
   (py_error + string list) \<times> files" where
  "chatterbox_generate_podcast_audio phase_pause_samples pause_samples self podcast_script
       output_dir combine_audio fs =
     (case chatterbox_loop phase_pause_samples self output_dir combine_audio 0
             (script podcast_script) \<lparr>audio_segments = [], output_files = [], files = fs\<rparr> of
        (Some e, st) \<Rightarrow> (Inl e, files st)
      | (None, st) \<Rightarrow>
          if combine_audio \<and> audio_segments st \<noteq> []
          then (case combine_audio_segments pause_samples (sr self)
                       (audio_segments st) output_dir (files st) of
                  (Inl e, fs') \<Rightarrow> (Inl e, fs')
                | (Inr combined_path, fs') \<Rightarrow> (Inr (output_files st @ [combined_path]), fs'))
          else (Inr (output_files st), files st))"

section \<open>Vocabulary of the properties\<close>

text \<open>A string without whitespace: a single word, or the empty string.\<close>

definition no_whitespace :: "string \<Rightarrow> bool" where
  "no_whitespace p = (\<forall>c \<in> set p. \<not> is_space c)"

text \<open>A chunk that respects the bound, or that no split at whitespace can shorten.\<close>

definition fits :: "int \<Rightarrow> string \<Rightarrow> bool" where
  "fits m p = (int (length p) \<le> m \<or> no_whitespace p)"

text \<open>
  The waveforms of a list joined in order, with the gap between each two neighbours and
  none after the last: what the Podcast Combiner is specified to produce.
\<close>

fun joined_with_gap :: "samples \<Rightarrow> samples list \<Rightarrow> samples" where
  "joined_with_gap gap [] = []"
| "joined_with_gap gap [x] = x"
| "joined_with_gap gap (x # y # rest) = x @ gap @ joined_with_gap gap (y # rest)"

text \<open>The device that line 255 resolves: the argument if it is given, else the detected one.\<close>

definition resolved_device :: "torch_env \<Rightarrow> string option \<Rightarrow> string" where
  "resolved_device env dev_arg =
     (case dev_arg of
        Some d \<Rightarrow> if d \<noteq> [] then d else detect_device env
      | None \<Rightarrow> detect_device env)"

text \<open>
  The outcome of the load on the resolved device and of the load on the CPU, each under
  the patch that is in force when the constructor makes the call.
\<close>

definition first_load :: "torch_env \<Rightarrow> string option \<Rightarrow> globals \<Rightarrow> py_error + chatterbox_model" where
  "first_load env dev_arg gl =
     from_pretrained env (PatchedLoad (torch_load gl) (resolved_device env dev_arg))
       (resolved_device env dev_arg)"

definition fallback_load :: "torch_env \<Rightarrow> globals \<Rightarrow> py_error + chatterbox_model" where
  "fallback_load env gl = from_pretrained env (PatchedLoad (torch_load gl) ''cpu'') ''cpu''"

text \<open>The calls of \<open>from_pretrained\<close> made between two states of the globals.\<close>

definition new_load_calls :: "globals \<Rightarrow> globals \<Rightarrow> (string \<times> torch_load_fn) list" where
  "new_load_calls before after = drop (length (load_calls before)) (load_calls after)"

subsection \<open>Concrete inputs\<close>

definition example_segment :: "samples \<Rightarrow> AudioSegment" where
  "example_segment a =
     \<lparr>speaker = ''Speaker'', text_field = ''Hi.'', audio_data = a, duration = 0,
      file_path = ''out/x.wav''\<rparr>"

definition example_generate :: "string \<Rightarrow> string option \<Rightarrow> py_error + samples" where
  "example_generate phase prompt = Inr [0, 0]"

definition example_model :: chatterbox_model where
  "example_model = \<lparr>model_sr = 24000, generate = example_generate\<rparr>"

text \<open>A machine whose accelerator fails to load the model, and one where every load fails.\<close>

definition cpu_only_from_pretrained :: "torch_load_fn \<Rightarrow> string \<Rightarrow> py_error + chatterbox_model" where
  "cpu_only_from_pretrained l dev =
     (if dev = ''cpu'' then Inr example_model else Inl (BackendError ''accelerator''))"

definition failing_from_pretrained :: "torch_load_fn \<Rightarrow> string \<Rightarrow> py_error + chatterbox_model" where
  "failing_from_pretrained l dev = Inl (BackendError dev)"

definition cpu_only_env :: torch_env where
  "cpu_only_env = \<lparr>chatterbox_available = True, cuda_is_available = True,
     mps_is_available = False, from_pretrained = cpu_only_from_pretrained\<rparr>"

definition failing_env :: torch_env where
  "failing_env = \<lparr>chatterbox_available = True, cuda_is_available = True,
     mps_is_available = False, from_pretrained = failing_from_pretrained\<rparr>"

definition example_globals :: globals where
  "example_globals = \<lparr>torch_load = TorchLoad, environ = Map.empty, load_calls = []\<rparr>"

definition example_chatterbox :: ChatterboxTTSGenerator where
  "example_chatterbox =
     \<lparr>device = ''cpu'', original_torch_load = TorchLoad, model = example_model, sr = 24000,
      reference_audio_path = None\<rparr>"

definition example_exists :: "string \<Rightarrow> bool" where
  "example_exists p = (p = ''a.wav'' \<or> p = ''b.wav'')"

subsection \<open>Runs of \<open>generate_podcast_audio\<close>\<close>

text \<open>
  A line succeeds when it is a dict with an entry and the waveform of its first entry is
  produced: by \<open>_generate_single_segment\<close> in the fixed-voice engine, by the phases of
  lines 394 to 429 in the voice-cloning engine.
\<close>

definition podcast_line_ok :: "PodcastTTSGenerator \<Rightarrow> line_dict \<Rightarrow> bool" where
  "podcast_line_ok self l =
     (case l of
        [] \<Rightarrow> False
      | (spkr, dialogue) # items \<Rightarrow>
          (case generate_single_segment self spkr dialogue of Inl e \<Rightarrow> False | Inr a \<Rightarrow> True))"

definition chatterbox_line_ok :: "nat \<Rightarrow> ChatterboxTTSGenerator \<Rightarrow> line_dict \<Rightarrow> bool" where
  "chatterbox_line_ok phase_pause_samples self l =
     (case l of
        [] \<Rightarrow> False
      | (spkr, dialogue) # items \<Rightarrow>
          (case chatterbox_segment_audio phase_pause_samples self dialogue of
             Inl e \<Rightarrow> False | Inr a \<Rightarrow> True))"

text \<open>The path of the segment file of line number \<open>i\<close> (from 0) of the script.\<close>

definition line_path :: "string \<Rightarrow> nat \<Rightarrow> line_dict \<Rightarrow> string" where
  "line_path output_dir i l = os_path_join output_dir (segment_filename i (fst (hd l)))"

text \<open>
  The segment paths of the lines that satisfy \<open>ok\<close>, in the order of the script, each
  numbered by the place of its line in the script.
\<close>

fun segment_paths :: "(line_dict \<Rightarrow> bool) \<Rightarrow> string \<Rightarrow> nat \<Rightarrow> line_dict list \<Rightarrow> string list" where
  "segment_paths ok output_dir i [] = []"
| "segment_paths ok output_dir i (l # ls) =
     (if ok l then [line_path output_dir i l] else []) @ segment_paths ok output_dir (i + 1) ls"

text \<open>The path of the combined file.\<close>

definition combined_path_of :: "string \<Rightarrow> string" where
  "combined_path_of output_dir = os_path_join output_dir ''complete_podcast.wav''"

text \<open>Whether some line of a list satisfies \<open>ok\<close>.\<close>

definition some_line :: "(line_dict \<Rightarrow> bool) \<Rightarrow> line_dict list \<Rightarrow> bool" where
  "some_line ok ls = (filter ok ls \<noteq> [])"

text \<open>Every line of the script is a dict with at least one entry.\<close>

definition lines_have_entry :: "line_dict list \<Rightarrow> bool" where
  "lines_have_entry ls = list_all (\<lambda>l. l \<noteq> []) ls"

subsection \<open>Concrete engines and scripts\<close>

text \<open>
  A Kokoro pipeline and a Chatterbox model that fail on the text \<open>Fail.\<close> and return
  two samples on any other, and scripts of three and of two lines.
\<close>

definition example_pipeline :: "string \<Rightarrow> string \<Rightarrow> py_error + samples list" where
  "example_pipeline txt voice =
     (if txt = ''Fail.'' then Inl (BackendError ''pipeline'') else Inr [ [0, 0] ])"

definition example_podcast :: PodcastTTSGenerator where
  "example_podcast =
     \<lparr>sample_rate = 24000, pipeline = example_pipeline, default_voice = ''af_heart''\<rparr>"

definition flaky_generate :: "string \<Rightarrow> string option \<Rightarrow> py_error + samples" where
  "flaky_generate phase prompt =
     (if phase = ''Fail.'' then Inl (BackendError ''model'') else Inr [0, 0])"

definition flaky_chatterbox :: ChatterboxTTSGenerator where
  "flaky_chatterbox =
     \<lparr>device = ''cpu'', original_torch_load = TorchLoad,
      model = \<lparr>model_sr = 24000, generate = flaky_generate\<rparr>, sr = 24000,
      reference_audio_path = None\<rparr>"

definition three_line_script :: PodcastScript where
  "three_line_script =
     \<lparr>script = [ [(''Speaker'', ''One.'')], [(''Speaker'', ''Fail.'')], [(''Speaker'', ''Three.'')] ],
      source_document = ''doc'', total_lines = 3, estimated_duration = ''5 minutes''\<rparr>"

definition two_line_script :: PodcastScript where
  "two_line_script =
     \<lparr>script = [ [(''Speaker'', ''One.'')], [(''Speaker'', ''Two.'')] ],
      source_document = ''doc'', total_lines = 2, estimated_duration = ''5 minutes''\<rparr>"

section \<open>Properties of the Text Normalizer\<close>

lemma strip_whitespace_only: "\<forall>c \<in> set s. is_space c \<Longrightarrow> strip s = []"
proof -
  assume "\<forall>c \<in> set s. is_space c"
  then have "dropWhile is_space s = []"
    by simp
  then have "rev (dropWhile is_space (rev (dropWhile is_space s))) = []"
    by (simp only: rev.simps dropWhile.simps)
  then show ?thesis
    by (simp only: strip_def)
qed

lemma replace_Nil: "old \<noteq> [] \<Longrightarrow> replace [] old new = []"
  by (simp add: replace_def)

text \<open>
  C4: for every input string, \<open>_clean_text_for_tts\<close> returns a string whose last
  character is \<open>.\<close>, \<open>!\<close> or \<open>?\<close>.
\<close>

theorem clean_text_ends_terminal:
  "clean_text_for_tts text \<noteq> [] \<and>
   last (clean_text_for_tts text) \<in> {CHR ''.'', CHR ''!'', CHR ''?''}"
  by (auto simp: clean_text_for_tts_def Let_def endswith_terminal_def is_terminal_def)

text \<open>
  C10: \<open>_clean_text_for_tts\<close> is a total function of its input (the model above has no
  failing branch, as the source has none), and on an input that is empty or made of
  whitespace only it returns the one-character string \<open>.\<close>.
\<close>

theorem clean_text_whitespace_only:
  "\<forall>c \<in> set text. is_space c \<Longrightarrow> clean_text_for_tts text = ''.''"
  by (simp add: clean_text_for_tts_def Let_def strip_whitespace_only replace_Nil
      endswith_terminal_def)

theorem clean_text_whitespace_only_witness:
  "is_space (CHR '' '') \<and> is_space (CHR 0x09) \<and> clean_text_for_tts [CHR '' '', CHR 0x09] = ''.''"
  using clean_text_whitespace_only [of "[CHR '' '', CHR 0x09]"] by (simp add: is_space_def)

section \<open>The lengths of the phases\<close>

lemma split_from_words:
  "no_whitespace w \<Longrightarrow> x \<in> set (split_from w s) \<Longrightarrow> x \<noteq> [] \<and> no_whitespace x"
proof (induction s arbitrary: w)
  case Nil
  then show ?case by (cases "w = []") simp_all
next
  case (Cons c cs)
  show ?case
  proof (cases "is_space c")
    case True
    have nil: "no_whitespace []" by (simp add: no_whitespace_def)
    have "(x = w \<and> w \<noteq> []) \<or> x \<in> set (split_from [] cs)"
      using Cons.prems(2) True by (cases "w = []") simp_all
    then show ?thesis
      using Cons.IH [OF nil] Cons.prems(1) by blast
  next
    case False
    then have "no_whitespace (w @ [c])"
      using Cons.prems(1) by (simp add: no_whitespace_def)
    moreover have "x \<in> set (split_from (w @ [c]) cs)"
      using Cons.prems(2) False by simp
    ultimately show ?thesis by (rule Cons.IH)
  qed
qed

lemma set_strip_subset: "set (strip s) \<subseteq> set s"
proof -
  have "set (strip s) = set (dropWhile is_space (rev (dropWhile is_space s)))"
    by (simp add: strip_def)
  also have "\<dots> \<subseteq> set (rev (dropWhile is_space s))"
    by (auto dest: set_dropWhileD)
  also have "\<dots> \<subseteq> set s"
    by (auto dest: set_dropWhileD)
  finally show ?thesis .
qed

lemma length_strip_le: "length (strip s) \<le> length s"
proof -
  have "length (dropWhile is_space (rev (dropWhile is_space s))) \<le> length (rev (dropWhile is_space s))"
    by (rule length_dropWhile_le)
  also have "\<dots> = length (dropWhile is_space s)"
    by simp
  also have "\<dots> \<le> length s"
    by (rule length_dropWhile_le)
  finally show ?thesis
    by (simp add: strip_def)
qed

lemma fits_strip: "fits m p \<Longrightarrow> fits m (strip p)"
  using set_strip_subset [of p] length_strip_le [of p]
  by (auto simp: fits_def no_whitespace_def)

lemma fits_Nil [simp]: "fits m []"
  by (simp add: fits_def no_whitespace_def)

lemma fits_accumulate_words:
  "\<forall>w \<in> set ws. no_whitespace w \<Longrightarrow> fits m cur \<Longrightarrow>
   (\<forall>p \<in> set (fst (accumulate_words m fin cur ws)). p \<in> set fin \<or> fits m p) \<and>
   fits m (snd (accumulate_words m fin cur ws))"
proof (induction ws arbitrary: fin cur)
  case Nil
  then show ?case by simp
next
  case (Cons w ws)
  have w: "fits m w" using Cons.prems(1) by (simp add: fits_def)
  have rest: "\<forall>w \<in> set ws. no_whitespace w" using Cons.prems(1) by simp
  show ?case
  proof (cases "int (length cur) + int (length w) + 1 > m \<and> cur \<noteq> []")
    case True
    have step: "accumulate_words m fin cur (w # ws) = accumulate_words m (fin @ [strip cur]) w ws"
      using True by simp
    show ?thesis
      using Cons.IH [OF rest w, of "fin @ [strip cur]"] fits_strip [OF Cons.prems(2)]
      unfolding step by auto
  next
    case False
    define cur' where "cur' = (if cur \<noteq> [] then cur @ '' '' @ w else w)"
    have step: "accumulate_words m fin cur (w # ws) = accumulate_words m fin cur' ws"
      by (simp only: accumulate_words.simps False if_False cur'_def)
    have "fits m cur'"
      using False w by (auto simp: cur'_def fits_def)
    then show ?thesis
      using Cons.IH [OF rest, of cur' fin] unfolding step by simp
  qed
qed

lemma fits_split_phase_by_words:
  "p \<in> set (split_phase_by_words m fin phase) \<Longrightarrow> p \<in> set fin \<or> fits m p"
proof -
  assume p: "p \<in> set (split_phase_by_words m fin phase)"
  obtain f cur where r: "accumulate_words m fin [] (split_whitespace phase) = (f, cur)"
    by (cases "accumulate_words m fin [] (split_whitespace phase)")
  have ws: "\<forall>w \<in> set (split_whitespace phase). no_whitespace w"
    using split_from_words [of "[]" _ phase]
    by (auto simp: split_whitespace_def no_whitespace_def)
  have inv: "(\<forall>p \<in> set f. p \<in> set fin \<or> fits m p) \<and> fits m cur"
    using fits_accumulate_words [OF ws fits_Nil, of m fin] r by simp
  then have "fits m (strip cur)" by (simp add: fits_strip)
  then show ?thesis
    using p inv r by (auto simp: split_phase_by_words_def split: if_splits)
qed

lemma bound_split_long_phases:
  "p \<in> set (split_long_phases m fin ps) \<Longrightarrow>
   p \<in> set fin \<or> 2 * int (length p) \<le> 3 * m \<or> fits m p"
proof (induction ps arbitrary: fin)
  case Nil
  then show ?case by simp
next
  case (Cons phase ps)
  show ?case
  proof (cases "2 * int (length phase) > 3 * m")
    case True
    then have "p \<in> set (split_long_phases m (split_phase_by_words m fin phase) ps)"
      using Cons.prems by simp
    then show ?thesis
      using Cons.IH [of "split_phase_by_words m fin phase"] fits_split_phase_by_words [of p m fin phase]
      by blast
  next
    case False
    then have "p \<in> set (split_long_phases m (fin @ [phase]) ps)"
      using Cons.prems by simp
    then show ?thesis
      using Cons.IH [of "fin @ [phase]"] False by auto
  qed
qed

lemma accumulate_words_append:
  "accumulate_words m fin cur ws =
     (fin @ fst (accumulate_words m [] cur ws), snd (accumulate_words m [] cur ws))"
proof (induction ws arbitrary: fin cur)
  case Nil
  show ?case by simp
next
  case (Cons w ws)
  show ?case
  proof (cases "int (length cur) + int (length w) + 1 > m \<and> cur \<noteq> []")
    case True
    show ?thesis
      using Cons.IH [of "fin @ [strip cur]" w] Cons.IH [of "[strip cur]" w] True by simp
  next
    case False
    show ?thesis
      using Cons.IH [of fin "if cur \<noteq> [] then cur @ '' '' @ w else w"] False
      by (simp only: accumulate_words.simps if_False)
  qed
qed

lemma split_phase_by_words_append:
  "split_phase_by_words m fin phase = fin @ split_phase_by_words m [] phase"
proof -
  obtain f cur where r: "accumulate_words m [] [] (split_whitespace phase) = (f, cur)"
    by (cases "accumulate_words m [] [] (split_whitespace phase)")
  have "accumulate_words m fin [] (split_whitespace phase) = (fin @ f, cur)"
    using accumulate_words_append [of m fin "[]" "split_whitespace phase"] r by simp
  then show ?thesis
    using r by (simp add: split_phase_by_words_def)
qed

lemma split_long_phases_eq:
  "split_long_phases m fin ps =
     fin @ concat (map (\<lambda>phase. if 2 * int (length phase) > 3 * m
                                then split_phase_by_words m [] phase else [phase]) ps)"
proof (induction ps arbitrary: fin)
  case Nil
  show ?case by simp
next
  case (Cons phase ps)
  show ?case
  proof (cases "2 * int (length phase) > 3 * m")
    case True
    show ?thesis
      using Cons.IH [of "split_phase_by_words m fin phase"] True
        split_phase_by_words_append [of m fin phase]
      by simp
  next
    case False
    show ?thesis
      using Cons.IH [of "fin @ [phase]"] False by simp
  qed
qed

text \<open>
  C2, as the code has it: every phase returned by \<open>_split_text_into_phases\<close> is either a
  phase of the first pass (the sentences joined greedily, lines 320 to 340) that has at
  most 1.5 times \<open>max_chars\<close> characters and is returned as it is, or a chunk of the
  split at word boundaries of a first-pass phase longer than 1.5 times \<open>max_chars\<close>; and
  such a chunk has at most \<open>max_chars\<close> characters or is a single word without
  whitespace.
\<close>

theorem split_phase_bounds:
  "p \<in> set (split_text_into_phases text m) \<Longrightarrow>
     (p \<in> set (sentence_phases text m) \<and> 2 * int (length p) \<le> 3 * m) \<or>
     (\<exists>phase. phase \<in> set (sentence_phases text m) \<and> 3 * m < 2 * int (length phase) \<and>
        p \<in> set (split_phase_by_words m [] phase) \<and>
        (int (length p) \<le> m \<or> no_whitespace p))"
proof -
  assume "p \<in> set (split_text_into_phases text m)"
  then obtain phase where ph: "phase \<in> set (sentence_phases text m)"
    and p: "p \<in> set (if 2 * int (length phase) > 3 * m
                       then split_phase_by_words m [] phase else [phase])"
    by (auto simp: split_text_into_phases_def split_long_phases_eq)
  show ?thesis
  proof (cases "2 * int (length phase) > 3 * m")
    case True
    then have in_chunks: "p \<in> set (split_phase_by_words m [] phase)"
      using p by simp
    then have "int (length p) \<le> m \<or> no_whitespace p"
      using fits_split_phase_by_words [of p m "[]" phase] by (simp add: fits_def)
    then show ?thesis
      using ph True in_chunks by blast
  next
    case False
    then have "p = phase"
      using p by simp
    then show ?thesis
      using ph False by simp
  qed
qed

theorem split_phase_bounds_witness:
  "''bb cc dd'' \<in> set (split_text_into_phases ''aaaaaaaaaaaaaaaaaaaaaaa bb cc dd ee ff gg'' 10) \<and>
   sentence_phases ''aaaaaaaaaaaaaaaaaaaaaaa bb cc dd ee ff gg'' 10 =
     [''aaaaaaaaaaaaaaaaaaaaaaa bb cc dd ee ff gg.''] \<and>
   3 * 10 < 2 * int (length ''aaaaaaaaaaaaaaaaaaaaaaa bb cc dd ee ff gg.'') \<and>
   split_phase_by_words 10 [] ''aaaaaaaaaaaaaaaaaaaaaaa bb cc dd ee ff gg.'' =
     [''aaaaaaaaaaaaaaaaaaaaaaa'', ''bb cc dd'', ''ee ff gg.''] \<and>
   int (length ''bb cc dd'') \<le> 10 \<and>
   ''aaaaa bbbbbb.'' \<in> set (split_text_into_phases ''aaaaa bbbbbb'' 10) \<and>
   sentence_phases ''aaaaa bbbbbb'' 10 = [''aaaaa bbbbbb.''] \<and>
   2 * int (length ''aaaaa bbbbbb.'') \<le> 3 * 10"
proof -
  have a: "split_text_into_phases ''aaaaaaaaaaaaaaaaaaaaaaa bb cc dd ee ff gg'' 10 =
           [''aaaaaaaaaaaaaaaaaaaaaaa'', ''bb cc dd'', ''ee ff gg.'']"
    by code_simp
  have b: "split_phase_by_words 10 [] ''aaaaaaaaaaaaaaaaaaaaaaa bb cc dd ee ff gg.'' =
           [''aaaaaaaaaaaaaaaaaaaaaaa'', ''bb cc dd'', ''ee ff gg.'']"
    by code_simp
  have c: "sentence_phases ''aaaaaaaaaaaaaaaaaaaaaaa bb cc dd ee ff gg'' 10 =
           [''aaaaaaaaaaaaaaaaaaaaaaa bb cc dd ee ff gg.'']"
    by code_simp
  have d: "split_text_into_phases ''aaaaa bbbbbb'' 10 = [''aaaaa bbbbbb.'']"
    by code_simp
  have e: "sentence_phases ''aaaaa bbbbbb'' 10 = [''aaaaa bbbbbb.'']"
    by code_simp
  have m1: "''bb cc dd'' \<in> set (split_text_into_phases ''aaaaaaaaaaaaaaaaaaaaaaa bb cc dd ee ff gg'' 10)"
    unfolding a by simp
  have m2: "''aaaaa bbbbbb.'' \<in> set (split_text_into_phases ''aaaaa bbbbbb'' 10)"
    unfolding d by simp
  show ?thesis
    using split_phase_bounds [OF m1] split_phase_bounds [OF m2] m1 m2
    unfolding b c e by simp
qed

text \<open>
  The claim as the specification states it fails: the text \<open>aaaaa bbbbbb\<close> is one
  sentence of 12 characters, not longer than 1.5 times the bound 10, and it comes back
  as one phase of 13 characters.
\<close>

theorem split_phase_bound_counterexample:
  "re_split_sentences ''aaaaa bbbbbb'' = [''aaaaa bbbbbb''] \<and>
   2 * int (length ''aaaaa bbbbbb'') \<le> 3 * 10 \<and>
   split_text_into_phases ''aaaaa bbbbbb'' 10 = [''aaaaa bbbbbb.''] \<and>
   10 < int (length ''aaaaa bbbbbb.'')"
proof -
  have a: "re_split_sentences ''aaaaa bbbbbb'' = [''aaaaa bbbbbb'']"
    by code_simp
  have b: "split_text_into_phases ''aaaaa bbbbbb'' 10 = [''aaaaa bbbbbb.'']"
    by code_simp
  show ?thesis
    unfolding a b by simp
qed

section \<open>What the Phase Splitter does to the punctuation\<close>

text \<open>
  C3 asks that the phases, put together, hold all the sentence content of the text, the
  separators that the splitter injects apart. The code does not do so: the pattern of
  line 320 takes the \<open>?\<close> or \<open>!\<close> that ends a sentence before whitespace as part of
  the delimiter, and line 331 writes a period in its place. On the line
  \<open>Are you ready? Go now! Fine.\<close>, with the bound 800 of line 394, the only phase
  returned is \<open>Are you ready. Go now. Fine.\<close>: the question mark and the exclamation
  mark of the input are in no phase. The test of line 330 and the Text Normalizer of
  the other engine both keep a final \<open>?\<close> or \<open>!\<close>.
\<close>

theorem split_loses_terminal_marks:
  "split_text_into_phases ''Are you ready? Go now! Fine.'' 800 = [''Are you ready. Go now. Fine.''] \<and>
   CHR ''?'' \<in> set ''Are you ready? Go now! Fine.'' \<and>
   CHR ''?'' \<notin> set (concat (split_text_into_phases ''Are you ready? Go now! Fine.'' 800)) \<and>
   CHR ''!'' \<in> set ''Are you ready? Go now! Fine.'' \<and>
   CHR ''!'' \<notin> set (concat (split_text_into_phases ''Are you ready? Go now! Fine.'' 800)) \<and>
   clean_text_for_tts ''Are you ready? Go now! Fine.'' = ''Are you ready? Go now! Fine.''"
proof -
  have a: "split_text_into_phases ''Are you ready? Go now! Fine.'' 800 =
           [''Are you ready. Go now. Fine.'']"
    by code_simp
  have b: "clean_text_for_tts ''Are you ready? Go now! Fine.'' = ''Are you ready? Go now! Fine.''"
    by code_simp
  show ?thesis
    unfolding a b by simp
qed

section \<open>Podcast Combiner\<close>

lemma joined_with_gap_Cons:
  "joined_with_gap gap (x # xs) = (if xs = [] then x else x @ gap @ joined_with_gap gap xs)"
  by (cases xs) simp_all

lemma length_joined_with_gap:
  "length (joined_with_gap gap xs) = sum_list (map length xs) + (length xs - 1) * length gap"
  by (induction gap xs rule: joined_with_gap.induct) simp_all

lemma concat_combine_loop:
  "i + length segments = n \<Longrightarrow>
   concat (combine_loop pause_audio n i segments combined_audio)
   = concat combined_audio @ joined_with_gap pause_audio (map audio_data segments)"
proof (induction segments arbitrary: i combined_audio)
  case Nil
  show ?case by simp
next
  case (Cons segment rest)
  have c: "(int i < int n - 1) = (rest \<noteq> [])"
    using Cons.prems by (cases rest) auto
  have n: "(i + 1) + length rest = n"
    using Cons.prems by simp
  show ?case
  proof (cases "rest = []")
    case True
    then show ?thesis using c by (simp add: Let_def)
  next
    case False
    then show ?thesis
      using c Cons.IH [OF n] by (simp add: Let_def joined_with_gap_Cons)
  qed
qed

lemma combine_loop_length:
  "length combined_audio + length segments \<le> length (combine_loop pause_audio n i segments combined_audio)"
proof (induction segments arbitrary: i combined_audio)
  case Nil
  show ?case by simp
next
  case (Cons segment rest)
  show ?case
    using Cons.IH [of "combined_audio @ [audio_data segment]" "i + 1"]
      Cons.IH [of "combined_audio @ [audio_data segment] @ [pause_audio]" "i + 1"]
    by (simp add: Let_def)
qed

lemma combine_loop_not_Nil:
  "segments \<noteq> [] \<Longrightarrow> combine_loop pause_audio n i segments combined_audio \<noteq> []"
  using combine_loop_length [of combined_audio segments pause_audio n i]
  by (cases segments) auto

lemma combine_audio_segments_ok:
  assumes "segments \<noteq> []" and "0 < rate"
  shows "combine_audio_segments pause_samples rate segments output_dir fs =
    (Inr (os_path_join output_dir ''complete_podcast.wav''),
     fs(os_path_join output_dir ''complete_podcast.wav'' \<mapsto>
        (joined_with_gap (replicate pause_samples 0) (map audio_data segments), rate)))"
proof -
  have a: "combine_loop (replicate pause_samples 0) (length segments) 0 segments [] \<noteq> []"
    using assms(1) by (rule combine_loop_not_Nil)
  have b: "concat (combine_loop (replicate pause_samples 0) (length segments) 0 segments [])
           = joined_with_gap (replicate pause_samples 0) (map audio_data segments)"
    using concat_combine_loop [of 0 segments "length segments" "replicate pause_samples 0" "[]"]
    by simp
  show ?thesis
    using a b assms(2) by (simp add: combine_audio_segments_def Let_def)
qed

text \<open>
  C5: for every non-empty list of segments (and a positive sample rate),
  \<open>_combine_audio_segments\<close> writes under \<open>output_dir\<close>, as \<open>complete_podcast.wav\<close>, the
  waveforms of the segments joined in order with one gap of \<open>pause_samples\<close> zeros
  between each two neighbours and none after the last, and returns that path; the number
  of samples written is the sum of the lengths of the segments plus \<open>n - 1\<close> times the
  length of the gap.
\<close>

theorem combiner_concatenates_with_gaps:
  assumes "segments \<noteq> []" and "0 < rate"
  shows "combine_audio_segments pause_samples rate segments output_dir fs =
    (Inr (os_path_join output_dir ''complete_podcast.wav''),
     fs(os_path_join output_dir ''complete_podcast.wav'' \<mapsto>
        (joined_with_gap (replicate pause_samples 0) (map audio_data segments), rate))) \<and>
    length (joined_with_gap (replicate pause_samples 0) (map audio_data segments)) =
      sum_list (map (\<lambda>s. length (audio_data s)) segments) + (length segments - 1) * pause_samples"
  using combine_audio_segments_ok [OF assms]
  by (simp add: length_joined_with_gap comp_def)

theorem combiner_concatenates_with_gaps_witness:
  "[example_segment [1, 2], example_segment [3] ] \<noteq> [] \<and> (0::nat) < 24000 \<and>
   combine_audio_segments 2 24000 [example_segment [1, 2], example_segment [3] ] ''out'' Map.empty =
     (Inr ''out/complete_podcast.wav'',
      [''out/complete_podcast.wav'' \<mapsto> ([1, 2, 0, 0, 3], 24000)]) \<and>
   length [1, 2, 0, 0, 3 :: real] = 5"
  using combiner_concatenates_with_gaps [of "[example_segment [1, 2], example_segment [3] ]" 24000 2 "''out''" Map.empty]
  by (simp add: example_segment_def os_path_join_def numeral_2_eq_2)

section \<open>Reference audio\<close>

text \<open>
  C7: \<open>set_reference_audio\<close> raises \<open>FileNotFoundError\<close> exactly when no file exists
  at the path, and then leaves the generator as it was; when the file exists it returns
  normally and stores the path in place of the one before, so that after two calls that
  succeed the second path is the one in force.
\<close>

theorem set_reference_audio_spec:
  "(fst (set_reference_audio ex self p) = Inl FileNotFoundError \<longleftrightarrow> \<not> ex p) \<and>
   (fst (set_reference_audio ex self p) = Inr () \<longleftrightarrow> ex p) \<and>
   (\<not> ex p \<longrightarrow> snd (set_reference_audio ex self p) = self) \<and>
   (ex p \<longrightarrow> snd (set_reference_audio ex self p) = self\<lparr>reference_audio_path := Some p\<rparr>) \<and>
   (ex p \<and> ex' q \<longrightarrow>
      reference_audio_path (snd (set_reference_audio ex' (snd (set_reference_audio ex self p)) q)) = Some q)"
  by (simp add: set_reference_audio_def)

theorem set_reference_audio_spec_witness:
  "\<not> example_exists ''missing.wav'' \<and> example_exists ''a.wav'' \<and> example_exists ''b.wav'' \<and>
   fst (set_reference_audio example_exists example_chatterbox ''missing.wav'') = Inl FileNotFoundError \<and>
   snd (set_reference_audio example_exists example_chatterbox ''missing.wav'') = example_chatterbox \<and>
   snd (set_reference_audio example_exists example_chatterbox ''a.wav'') =
     example_chatterbox\<lparr>reference_audio_path := Some ''a.wav''\<rparr> \<and>
   reference_audio_path (snd (set_reference_audio example_exists
     (snd (set_reference_audio example_exists example_chatterbox ''a.wav'')) ''b.wav'')) = Some ''b.wav''"
  using set_reference_audio_spec [of example_exists example_chatterbox "''missing.wav''"]
    set_reference_audio_spec [of example_exists example_chatterbox "''a.wav''" example_exists "''b.wav''"]
  by (simp add: example_exists_def set_reference_audio_def)

section \<open>Construction of the voice-cloning engine\<close>

lemma chatterbox_init_unfold:
  "chatterbox_available env \<Longrightarrow>
   chatterbox_init env dev_arg gl =
     (let dev = resolved_device env dev_arg;
          original = torch_load gl;
          env_gl = gl\<lparr>environ := (environ gl)(''PYTORCH_ENABLE_MPS_FALLBACK'' \<mapsto> ''1'')\<rparr>;
          calls1 = load_calls gl @ [(dev, PatchedLoad original dev)];
          calls2 = calls1 @ [(''cpu'', PatchedLoad original ''cpu'')]
      in case first_load env dev_arg gl of
           Inr m \<Rightarrow>
             (Inr \<lparr>device = dev, original_torch_load = original, model = m,
                   sr = model_sr m, reference_audio_path = None\<rparr>,
              env_gl\<lparr>load_calls := calls1\<rparr>)
         | Inl e \<Rightarrow>
             if dev \<noteq> ''cpu''
             then (case fallback_load env gl of
                     Inr m \<Rightarrow>
                       (Inr \<lparr>device = ''cpu'', original_torch_load = original, model = m,
                             sr = model_sr m, reference_audio_path = None\<rparr>,
                        env_gl\<lparr>load_calls := calls2\<rparr>)
                   | Inl e' \<Rightarrow> (Inl e', env_gl\<lparr>load_calls := calls2\<rparr>))
             else (Inl e, env_gl\<lparr>load_calls := calls1\<rparr>))"
  by (simp add: chatterbox_init_def resolved_device_def first_load_def fallback_load_def
      apply_device_fixes_def restore_torch_load_def load_model_def Let_def
      split: sum.splits option.splits)

lemma cpu_only_first_load:
  "first_load cpu_only_env None example_globals = Inl (BackendError ''accelerator'')"
  by (simp add: first_load_def resolved_device_def detect_device_def cpu_only_env_def
      cpu_only_from_pretrained_def)

lemma failing_first_load:
  "first_load failing_env dev_arg example_globals = Inl (BackendError (resolved_device failing_env dev_arg))"
  by (simp add: first_load_def failing_env_def failing_from_pretrained_def)

text \<open>
  C8: when the Chatterbox imports are there and the load on the resolved device fails:
  if that device is not \<open>cpu\<close>, the load is tried once more, on \<open>cpu\<close>, and if this
  second load succeeds the constructor returns a generator whose device is \<open>cpu\<close>, while
  if it fails its error is the one the constructor raises; if the resolved device is
  \<open>cpu\<close> itself, there is no second load and the error of the first is raised.
\<close>

theorem device_fallback:
  assumes "chatterbox_available env" and "first_load env dev_arg gl = Inl e"
  shows
   "(resolved_device env dev_arg \<noteq> ''cpu'' \<and> fallback_load env gl = Inr m \<longrightarrow>
       fst (chatterbox_init env dev_arg gl) =
         Inr \<lparr>device = ''cpu'', original_torch_load = torch_load gl, model = m,
               sr = model_sr m, reference_audio_path = None\<rparr> \<and>
       new_load_calls gl (snd (chatterbox_init env dev_arg gl)) =
         [(resolved_device env dev_arg, PatchedLoad (torch_load gl) (resolved_device env dev_arg)),
          (''cpu'', PatchedLoad (torch_load gl) ''cpu'')]) \<and>
    (resolved_device env dev_arg \<noteq> ''cpu'' \<and> fallback_load env gl = Inl e' \<longrightarrow>
       fst (chatterbox_init env dev_arg gl) = Inl e' \<and>
       new_load_calls gl (snd (chatterbox_init env dev_arg gl)) =
         [(resolved_device env dev_arg, PatchedLoad (torch_load gl) (resolved_device env dev_arg)),
          (''cpu'', PatchedLoad (torch_load gl) ''cpu'')]) \<and>
    (resolved_device env dev_arg = ''cpu'' \<longrightarrow>
       fst (chatterbox_init env dev_arg gl) = Inl e \<and>
       new_load_calls gl (snd (chatterbox_init env dev_arg gl)) =
         [(''cpu'', PatchedLoad (torch_load gl) ''cpu'')])"
  using assms(2)
  by (simp add: chatterbox_init_unfold [OF assms(1)] Let_def new_load_calls_def)

theorem device_fallback_witness:
  "chatterbox_available cpu_only_env \<and>
   first_load cpu_only_env None example_globals = Inl (BackendError ''accelerator'') \<and>
   resolved_device cpu_only_env None = ''cuda'' \<and>
   fallback_load cpu_only_env example_globals = Inr example_model \<and>
   fst (chatterbox_init cpu_only_env None example_globals) =
     Inr \<lparr>device = ''cpu'', original_torch_load = TorchLoad, model = example_model,
           sr = 24000, reference_audio_path = None\<rparr> \<and>
   new_load_calls example_globals (snd (chatterbox_init cpu_only_env None example_globals)) =
     [(''cuda'', PatchedLoad TorchLoad ''cuda''), (''cpu'', PatchedLoad TorchLoad ''cpu'')] \<and>
   fallback_load failing_env example_globals = Inl (BackendError ''cpu'') \<and>
   fst (chatterbox_init failing_env None example_globals) = Inl (BackendError ''cpu'') \<and>
   resolved_device failing_env (Some ''cpu'') = ''cpu'' \<and>
   fst (chatterbox_init failing_env (Some ''cpu'') example_globals) = Inl (BackendError ''cpu'') \<and>
   new_load_calls example_globals (snd (chatterbox_init failing_env (Some ''cpu'') example_globals)) =
     [(''cpu'', PatchedLoad TorchLoad ''cpu'')]"
proof -
  have a: "chatterbox_available cpu_only_env" "chatterbox_available failing_env"
    by (simp_all add: cpu_only_env_def failing_env_def)
  have r: "resolved_device cpu_only_env None = ''cuda''"
    "resolved_device failing_env None = ''cuda''"
    "resolved_device failing_env (Some ''cpu'') = ''cpu''"
    by (simp_all add: resolved_device_def detect_device_def cpu_only_env_def failing_env_def)
  have f: "fallback_load cpu_only_env example_globals = Inr example_model"
    "fallback_load failing_env example_globals = Inl (BackendError ''cpu'')"
    by (simp_all add: fallback_load_def cpu_only_env_def failing_env_def
        cpu_only_from_pretrained_def failing_from_pretrained_def)
  have g: "torch_load example_globals = TorchLoad" "model_sr example_model = 24000"
    by (simp_all add: example_globals_def example_model_def)
  show ?thesis
    using device_fallback [OF a(1) cpu_only_first_load, of example_model]
      device_fallback [OF a(2) failing_first_load [of None], of _ "BackendError ''cpu''"]
      device_fallback [OF a(2) failing_first_load [of "Some ''cpu''"] ]
    by (simp add: a r f g cpu_only_first_load)
qed

text \<open>
  C9: on every path through the constructor, \<open>torch.load\<close> is afterwards what it was
  before, and every call of \<open>from_pretrained\<close> that the constructor made found the
  patch installed: the function in force wrapped the original one and mapped to the device
  of that call.
\<close>

theorem torch_load_restored:
  "torch_load (snd (chatterbox_init env dev_arg gl)) = torch_load gl \<and>
   list_all (\<lambda>(d, l). l = PatchedLoad (torch_load gl) d)
     (new_load_calls gl (snd (chatterbox_init env dev_arg gl)))"
proof (cases "chatterbox_available env")
  case False
  then show ?thesis
    by (simp add: chatterbox_init_def new_load_calls_def)
next
  case True
  show ?thesis
    by (simp add: chatterbox_init_unfold [OF True] Let_def new_load_calls_def split: sum.splits)
qed

section \<open>Runs of the fixed-voice engine\<close>

lemma podcast_try_segment_fail:
  "generate_single_segment self spkr dialogue = Inl e \<Longrightarrow>
   podcast_try_segment self output_dir c i spkr dialogue st = st"
  by (simp add: podcast_try_segment_def)

lemma podcast_try_segment_ok:
  assumes "generate_single_segment self spkr dialogue = Inr a"
    and "c \<longrightarrow> 0 < sample_rate self"
  shows "output_files (podcast_try_segment self output_dir c i spkr dialogue st)
           = output_files st @ [os_path_join output_dir (segment_filename i spkr)]"
    and "(audio_segments (podcast_try_segment self output_dir c i spkr dialogue st) = [])
           = (audio_segments st = [] \<and> \<not> c)"
    and "files (podcast_try_segment self output_dir c i spkr dialogue st)
           = (files st)(os_path_join output_dir (segment_filename i spkr) \<mapsto> (a, sample_rate self))"
  using assms by (auto simp: podcast_try_segment_def Let_def)

lemma podcast_loop_result:
  assumes "lines_have_entry ls" and "c \<longrightarrow> 0 < sample_rate self"
  shows "fst (podcast_loop self output_dir c i ls st) = None \<and>
         output_files (snd (podcast_loop self output_dir c i ls st))
           = output_files st @ segment_paths (podcast_line_ok self) output_dir i ls \<and>
         ((audio_segments (snd (podcast_loop self output_dir c i ls st)) = [])
           = (audio_segments st = [] \<and> \<not> (c \<and> some_line (podcast_line_ok self) ls)))"
  using assms(1)
proof (induction ls arbitrary: i st)
  case Nil
  show ?case by (simp add: some_line_def)
next
  case (Cons l ls)
  obtain spkr dialogue items where l: "l = (spkr, dialogue) # items"
    using Cons.prems by (cases l) (auto simp: lines_have_entry_def)
  have rest: "lines_have_entry ls"
    using Cons.prems by (simp add: lines_have_entry_def)
  note IH = Cons.IH [OF rest, of "i + 1"]
  show ?case
  proof (cases "generate_single_segment self spkr dialogue")
    case (Inl e)
    have ok: "\<not> podcast_line_ok self l"
      using Inl l by (simp add: podcast_line_ok_def)
    show ?thesis
      using IH [of st] ok
      by (simp add: l podcast_try_segment_fail [OF Inl] some_line_def)
  next
    case (Inr a)
    have ok: "podcast_line_ok self l"
      using Inr l by (simp add: podcast_line_ok_def)
    have p: "line_path output_dir i l = os_path_join output_dir (segment_filename i spkr)"
      by (simp add: line_path_def l)
    show ?thesis
      using IH [of "podcast_try_segment self output_dir c i spkr dialogue st"] ok p
        podcast_try_segment_ok(1,2) [OF Inr assms(2), of output_dir i st]
      by (auto simp: l some_line_def)
  qed
qed

lemma podcast_generate_result:
  assumes "lines_have_entry (script podcast_script)" and "c \<longrightarrow> 0 < sample_rate self"
  shows "fst (podcast_generate_podcast_audio pause_samples self podcast_script output_dir c fs)
         = Inr (segment_paths (podcast_line_ok self) output_dir 0 (script podcast_script) @
                (if c \<and> some_line (podcast_line_ok self) (script podcast_script)
                 then [combined_path_of output_dir] else []))"
proof -
  define st0 where "st0 = \<lparr>audio_segments = [], output_files = [], files = fs\<rparr>"
  obtain r st where loop: "podcast_loop self output_dir c 0 (script podcast_script) st0 = (r, st)"
    by (cases "podcast_loop self output_dir c 0 (script podcast_script) st0")
  have res: "r = None"
    "output_files st = segment_paths (podcast_line_ok self) output_dir 0 (script podcast_script)"
    "(audio_segments st = []) = (\<not> (c \<and> some_line (podcast_line_ok self) (script podcast_script)))"
    using podcast_loop_result [OF assms, of output_dir 0 st0] loop
    by (simp_all add: st0_def)
  show ?thesis
  proof (cases "c \<and> some_line (podcast_line_ok self) (script podcast_script)")
    case True
    then have ne: "audio_segments st \<noteq> []" and rate: "0 < sample_rate self"
      using res(3) assms(2) by simp_all
    show ?thesis
      using True ne res(1,2) loop
      by (simp add: podcast_generate_podcast_audio_def st0_def [symmetric]
          combine_audio_segments_ok [OF ne rate] combined_path_of_def)
  next
    case False
    then have "audio_segments st = []"
      using res(3) by simp
    then show ?thesis
      using False res(1,2) loop
      by (simp add: podcast_generate_podcast_audio_def st0_def [symmetric])
  qed
qed

lemma segment_paths_all:
  "list_all ok ls \<Longrightarrow> segment_paths ok output_dir i ls = segment_paths (\<lambda>l. True) output_dir i ls"
  by (induction ls arbitrary: i) simp_all

lemma length_segment_paths_all:
  "length (segment_paths (\<lambda>l. True) output_dir i ls) = length ls"
  by (induction ls arbitrary: i) simp_all

lemma some_line_all: "list_all ok ls \<Longrightarrow> some_line ok ls = (ls \<noteq> [])"
  by (cases ls) (simp_all add: some_line_def)

lemma podcast_ok_has_entry: "list_all (podcast_line_ok self) ls \<Longrightarrow> lines_have_entry ls"
  by (induction ls) (auto simp: lines_have_entry_def podcast_line_ok_def)

lemma combine_audio_segments_dom:
  "combine_audio_segments pause_samples rate segments output_dir fs = (Inr p, fs') \<Longrightarrow>
   dom fs' = insert p (dom fs)"
  by (auto simp: combine_audio_segments_def Let_def split: if_splits)

lemma podcast_try_segment_files:
  "set (output_files st) \<subseteq> dom (files st) \<Longrightarrow>
   set (output_files (podcast_try_segment self output_dir c i spkr dialogue st))
     \<subseteq> dom (files (podcast_try_segment self output_dir c i spkr dialogue st))"
  by (auto simp: podcast_try_segment_def Let_def split: sum.splits)

lemma podcast_loop_files:
  "set (output_files st) \<subseteq> dom (files st) \<Longrightarrow>
   set (output_files (snd (podcast_loop self output_dir c i ls st)))
     \<subseteq> dom (files (snd (podcast_loop self output_dir c i ls st)))"
proof (induction self output_dir c i ls st rule: podcast_loop.induct)
  case (1 self output_dir c i st)
  then show ?case by simp
next
  case (2 self output_dir c i rest st)
  then show ?case by simp
next
  case (3 self output_dir c i spkr dialogue items rest st)
  show ?case
    using "3.IH" [OF podcast_try_segment_files [OF "3.prems"] ] by simp
qed

lemma podcast_generate_files:
  assumes "fst (podcast_generate_podcast_audio pause_samples self podcast_script output_dir c fs)
           = Inr paths"
  shows "set paths \<subseteq>
         dom (snd (podcast_generate_podcast_audio pause_samples self podcast_script output_dir c fs))"
proof -
  define st0 where "st0 = \<lparr>audio_segments = [], output_files = [], files = fs\<rparr>"
  obtain r st where loop: "podcast_loop self output_dir c 0 (script podcast_script) st0 = (r, st)"
    by (cases "podcast_loop self output_dir c 0 (script podcast_script) st0")
  have sub: "set (output_files st) \<subseteq> dom (files st)"
    using podcast_loop_files [of st0 self output_dir c 0 "script podcast_script"] loop
    by (simp add: st0_def)
  obtain res fs' where comb:
    "combine_audio_segments pause_samples (sample_rate self) (audio_segments st) output_dir (files st)
     = (res, fs')"
    by (cases "combine_audio_segments pause_samples (sample_rate self) (audio_segments st)
         output_dir (files st)")
  show ?thesis
  proof (cases "r = None \<and> c \<and> audio_segments st \<noteq> []")
    case True
    then obtain p where res: "res = Inr p" and paths: "paths = output_files st @ [p]"
      using assms loop comb
      by (cases res) (auto simp: podcast_generate_podcast_audio_def st0_def [symmetric])
    have "dom fs' = insert p (dom (files st))"
      using comb res by (simp add: combine_audio_segments_dom)
    then show ?thesis
      using True sub paths loop comb res
      by (auto simp: podcast_generate_podcast_audio_def st0_def [symmetric])
  next
    case False
    then show ?thesis
      using assms sub loop
      by (cases r) (auto simp: podcast_generate_podcast_audio_def st0_def [symmetric]
          split: if_splits)
  qed
qed

section \<open>Runs of the voice-cloning engine\<close>

lemma chatterbox_try_segment_fail:
  "chatterbox_segment_audio pp self dialogue = Inl e \<Longrightarrow>
   chatterbox_try_segment pp self output_dir c i spkr dialogue st = st"
  by (simp add: chatterbox_try_segment_def)

lemma chatterbox_try_segment_ok:
  assumes "chatterbox_segment_audio pp self dialogue = Inr a"
    and "c \<longrightarrow> 0 < sr self"
  shows "output_files (chatterbox_try_segment pp self output_dir c i spkr dialogue st)
           = output_files st @ [os_path_join output_dir (segment_filename i spkr)]"
    and "(audio_segments (chatterbox_try_segment pp self output_dir c i spkr dialogue st) = [])
           = (audio_segments st = [] \<and> \<not> c)"
    and "files (chatterbox_try_segment pp self output_dir c i spkr dialogue st)
           = (files st)(os_path_join output_dir (segment_filename i spkr) \<mapsto> (a, sr self))"
  using assms by (auto simp: chatterbox_try_segment_def Let_def)

lemma chatterbox_loop_result:
  assumes "lines_have_entry ls" and "c \<longrightarrow> 0 < sr self"
  shows "fst (chatterbox_loop pp self output_dir c i ls st) = None \<and>
         output_files (snd (chatterbox_loop pp self output_dir c i ls st))
           = output_files st @ segment_paths (chatterbox_line_ok pp self) output_dir i ls \<and>
         ((audio_segments (snd (chatterbox_loop pp self output_dir c i ls st)) = [])
           = (audio_segments st = [] \<and> \<not> (c \<and> some_line (chatterbox_line_ok pp self) ls)))"
  using assms(1)
proof (induction ls arbitrary: i st)
  case Nil
  show ?case by (simp add: some_line_def)
next
  case (Cons l ls)
  obtain spkr dialogue items where l: "l = (spkr, dialogue) # items"
    using Cons.prems by (cases l) (auto simp: lines_have_entry_def)
  have rest: "lines_have_entry ls"
    using Cons.prems by (simp add: lines_have_entry_def)
  note IH = Cons.IH [OF rest, of "i + 1"]
  show ?case
  proof (cases "chatterbox_segment_audio pp self dialogue")
    case (Inl e)
    have ok: "\<not> chatterbox_line_ok pp self l"
      using Inl l by (simp add: chatterbox_line_ok_def)
    show ?thesis
      using IH [of st] ok
      by (simp add: l chatterbox_try_segment_fail [OF Inl] some_line_def)
  next
    case (Inr a)
    have ok: "chatterbox_line_ok pp self l"
      using Inr l by (simp add: chatterbox_line_ok_def)
    have p: "line_path output_dir i l = os_path_join output_dir (segment_filename i spkr)"
      by (simp add: line_path_def l)
    show ?thesis
      using IH [of "chatterbox_try_segment pp self output_dir c i spkr dialogue st"] ok p
        chatterbox_try_segment_ok(1,2) [OF Inr assms(2), of output_dir i spkr st]
      by (auto simp: l some_line_def)
  qed
qed

lemma chatterbox_generate_result:
  assumes "lines_have_entry (script podcast_script)" and "c \<longrightarrow> 0 < sr self"
  shows "fst (chatterbox_generate_podcast_audio pp pause_samples self podcast_script output_dir c fs)
         = Inr (segment_paths (chatterbox_line_ok pp self) output_dir 0 (script podcast_script) @
                (if c \<and> some_line (chatterbox_line_ok pp self) (script podcast_script)
                 then [combined_path_of output_dir] else []))"
proof -
  define st0 where "st0 = \<lparr>audio_segments = [], output_files = [], files = fs\<rparr>"
  obtain r st where loop: "chatterbox_loop pp self output_dir c 0 (script podcast_script) st0 = (r, st)"
    by (cases "chatterbox_loop pp self output_dir c 0 (script podcast_script) st0")
  have res: "r = None"
    "output_files st = segment_paths (chatterbox_line_ok pp self) output_dir 0 (script podcast_script)"
    "(audio_segments st = []) = (\<not> (c \<and> some_line (chatterbox_line_ok pp self) (script podcast_script)))"
    using chatterbox_loop_result [OF assms, of pp output_dir 0 st0] loop
    by (simp_all add: st0_def)
  show ?thesis
  proof (cases "c \<and> some_line (chatterbox_line_ok pp self) (script podcast_script)")
    case True
    then have ne: "audio_segments st \<noteq> []" and rate: "0 < sr self"
      using res(3) assms(2) by simp_all
    show ?thesis
      using True ne res(1,2) loop
      by (simp add: chatterbox_generate_podcast_audio_def st0_def [symmetric]
          combine_audio_segments_ok [OF ne rate] combined_path_of_def)
  next
    case False
    then have "audio_segments st = []"
      using res(3) by simp
    then show ?thesis
      using False res(1,2) loop
      by (simp add: chatterbox_generate_podcast_audio_def st0_def [symmetric])
  qed
qed

lemma chatterbox_ok_has_entry: "list_all (chatterbox_line_ok pp self) ls \<Longrightarrow> lines_have_entry ls"
  by (induction ls) (auto simp: lines_have_entry_def chatterbox_line_ok_def)

lemma chatterbox_try_segment_files:
  "set (output_files st) \<subseteq> dom (files st) \<Longrightarrow>
   set (output_files (chatterbox_try_segment pp self output_dir c i spkr dialogue st))
     \<subseteq> dom (files (chatterbox_try_segment pp self output_dir c i spkr dialogue st))"
  by (auto simp: chatterbox_try_segment_def Let_def split: sum.splits)

lemma chatterbox_loop_files:
  "set (output_files st) \<subseteq> dom (files st) \<Longrightarrow>
   set (output_files (snd (chatterbox_loop pp self output_dir c i ls st)))
     \<subseteq> dom (files (snd (chatterbox_loop pp self output_dir c i ls st)))"
proof (induction pp self output_dir c i ls st rule: chatterbox_loop.induct)
  case (1 pp self output_dir c i st)
  then show ?case by simp
next
  case (2 pp self output_dir c i rest st)
  then show ?case by simp
next
  case (3 pp self output_dir c i spkr dialogue items rest st)
  show ?case
    using "3.IH" [OF chatterbox_try_segment_files [OF "3.prems"] ] by simp
qed

lemma chatterbox_generate_files:
  assumes "fst (chatterbox_generate_podcast_audio pp pause_samples self podcast_script output_dir c fs)
           = Inr paths"
  shows "set paths \<subseteq>
         dom (snd (chatterbox_generate_podcast_audio pp pause_samples self podcast_script output_dir c fs))"
proof -
  define st0 where "st0 = \<lparr>audio_segments = [], output_files = [], files = fs\<rparr>"
  obtain r st where loop: "chatterbox_loop pp self output_dir c 0 (script podcast_script) st0 = (r, st)"
    by (cases "chatterbox_loop pp self output_dir c 0 (script podcast_script) st0")
  have sub: "set (output_files st) \<subseteq> dom (files st)"
    using chatterbox_loop_files [of st0 pp self output_dir c 0 "script podcast_script"] loop
    by (simp add: st0_def)
  obtain res fs' where comb:
    "combine_audio_segments pause_samples (sr self) (audio_segments st) output_dir (files st)
     = (res, fs')"
    by (cases "combine_audio_segments pause_samples (sr self) (audio_segments st)
         output_dir (files st)")
  show ?thesis
  proof (cases "r = None \<and> c \<and> audio_segments st \<noteq> []")
    case True
    then obtain p where res: "res = Inr p" and paths: "paths = output_files st @ [p]"
      using assms loop comb
      by (cases res) (auto simp: chatterbox_generate_podcast_audio_def st0_def [symmetric])
    have "dom fs' = insert p (dom (files st))"
      using comb res by (simp add: combine_audio_segments_dom)
    then show ?thesis
      using True sub paths loop comb res
      by (auto simp: chatterbox_generate_podcast_audio_def st0_def [symmetric])
  next
    case False
    then show ?thesis
      using assms sub loop
      by (cases r) (auto simp: chatterbox_generate_podcast_audio_def st0_def [symmetric]
          split: if_splits)
  qed
qed
section \<open>What a run returns\<close>

lemma example_clean_text:
  "clean_text_for_tts ''One.'' = ''One.''" "clean_text_for_tts ''Two.'' = ''Two.''"
  "clean_text_for_tts ''Three.'' = ''Three.''" "clean_text_for_tts ''Fail.'' = ''Fail.''"
  by code_simp+

lemma example_phases:
  "split_text_into_phases ''One.'' 800 = [''One.'']"
  "split_text_into_phases ''Two.'' 800 = [''Two.'']"
  "split_text_into_phases ''Three.'' 800 = [''Three.'']"
  "split_text_into_phases ''Fail.'' 800 = [''Fail.'']"
  by code_simp+

lemma example_filenames:
  "segment_filename 0 ''Speaker'' = ''segment_001_speaker.wav''"
  "segment_filename (Suc 0) ''Speaker'' = ''segment_002_speaker.wav''"
  "segment_filename (Suc (Suc 0)) ''Speaker'' = ''segment_003_speaker.wav''"
  by code_simp+

lemma example_joins:
  "os_path_join ''out'' ''segment_001_speaker.wav'' = ''out/segment_001_speaker.wav''"
  "os_path_join ''out'' ''segment_002_speaker.wav'' = ''out/segment_002_speaker.wav''"
  "os_path_join ''out'' ''segment_003_speaker.wav'' = ''out/segment_003_speaker.wav''"
  "os_path_join ''out'' ''complete_podcast.wav'' = ''out/complete_podcast.wav''"
  by (simp_all add: os_path_join_def)

lemma example_podcast_ok:
  "podcast_line_ok example_podcast [(''Speaker'', ''One.'')]"
  "podcast_line_ok example_podcast [(''Speaker'', ''Two.'')]"
  "podcast_line_ok example_podcast [(''Speaker'', ''Three.'')]"
  "\<not> podcast_line_ok example_podcast [(''Speaker'', ''Fail.'')]"
  by (simp_all add: podcast_line_ok_def generate_single_segment_def example_podcast_def
      example_pipeline_def example_clean_text)

lemma example_chatterbox_ok:
  "chatterbox_line_ok 7200 flaky_chatterbox [(''Speaker'', ''One.'')]"
  "chatterbox_line_ok 7200 flaky_chatterbox [(''Speaker'', ''Two.'')]"
  "chatterbox_line_ok 7200 flaky_chatterbox [(''Speaker'', ''Three.'')]"
  "\<not> chatterbox_line_ok 7200 flaky_chatterbox [(''Speaker'', ''Fail.'')]"
  by (simp_all add: chatterbox_line_ok_def chatterbox_segment_audio_def flaky_chatterbox_def
      flaky_generate_def example_phases)

text \<open>
  C6: in a script whose lines are dicts with an entry (and with a positive sample rate
  when the segments are combined), a line whose synthesis raises is skipped and the run
  goes on. \<open>generate_podcast_audio\<close> returns normally, in both engines; what it returns
  is the segment paths of exactly the lines that succeeded, in the order of the script,
  followed by the combined file when \<open>combine_audio\<close> is set and some line succeeded; and
  those segment files are on disk after the run.
\<close>

theorem skip_and_continue:
  "(lines_have_entry (script ps) \<and> (c \<longrightarrow> 0 < sample_rate self) \<longrightarrow>
      fst (podcast_generate_podcast_audio pause self ps od c fs) =
        Inr (segment_paths (podcast_line_ok self) od 0 (script ps) @
             (if c \<and> some_line (podcast_line_ok self) (script ps)
              then [combined_path_of od] else [])) \<and>
      set (segment_paths (podcast_line_ok self) od 0 (script ps))
        \<subseteq> dom (snd (podcast_generate_podcast_audio pause self ps od c fs))) \<and>
   (lines_have_entry (script ps) \<and> (c \<longrightarrow> 0 < sr cself) \<longrightarrow>
      fst (chatterbox_generate_podcast_audio pp cpause cself ps od c fs) =
        Inr (segment_paths (chatterbox_line_ok pp cself) od 0 (script ps) @
             (if c \<and> some_line (chatterbox_line_ok pp cself) (script ps)
              then [combined_path_of od] else [])) \<and>
      set (segment_paths (chatterbox_line_ok pp cself) od 0 (script ps))
        \<subseteq> dom (snd (chatterbox_generate_podcast_audio pp cpause cself ps od c fs)))"
proof (intro conjI impI)
  assume a: "lines_have_entry (script ps) \<and> (c \<longrightarrow> 0 < sample_rate self)"
  then have r: "fst (podcast_generate_podcast_audio pause self ps od c fs) =
        Inr (segment_paths (podcast_line_ok self) od 0 (script ps) @
             (if c \<and> some_line (podcast_line_ok self) (script ps)
              then [combined_path_of od] else []))"
    by (simp add: podcast_generate_result)
  show "fst (podcast_generate_podcast_audio pause self ps od c fs) =
        Inr (segment_paths (podcast_line_ok self) od 0 (script ps) @
             (if c \<and> some_line (podcast_line_ok self) (script ps)
              then [combined_path_of od] else []))"
    by (rule r)
  show "set (segment_paths (podcast_line_ok self) od 0 (script ps))
        \<subseteq> dom (snd (podcast_generate_podcast_audio pause self ps od c fs))"
    using podcast_generate_files [OF r] by simp
next
  assume a: "lines_have_entry (script ps) \<and> (c \<longrightarrow> 0 < sr cself)"
  then have r: "fst (chatterbox_generate_podcast_audio pp cpause cself ps od c fs) =
        Inr (segment_paths (chatterbox_line_ok pp cself) od 0 (script ps) @
             (if c \<and> some_line (chatterbox_line_ok pp cself) (script ps)
              then [combined_path_of od] else []))"
    by (simp add: chatterbox_generate_result)
  show "fst (chatterbox_generate_podcast_audio pp cpause cself ps od c fs) =
        Inr (segment_paths (chatterbox_line_ok pp cself) od 0 (script ps) @
             (if c \<and> some_line (chatterbox_line_ok pp cself) (script ps)
              then [combined_path_of od] else []))"
    by (rule r)
  show "set (segment_paths (chatterbox_line_ok pp cself) od 0 (script ps))
        \<subseteq> dom (snd (chatterbox_generate_podcast_audio pp cpause cself ps od c fs))"
    using chatterbox_generate_files [OF r] by simp
qed

theorem skip_and_continue_witness:
  "lines_have_entry (script three_line_script) \<and>
   0 < sample_rate example_podcast \<and> 0 < sr flaky_chatterbox \<and>
   \<not> podcast_line_ok example_podcast [(''Speaker'', ''Fail.'')] \<and>
   \<not> chatterbox_line_ok 7200 flaky_chatterbox [(''Speaker'', ''Fail.'')] \<and>
   fst (podcast_generate_podcast_audio 4800 example_podcast three_line_script ''out'' True Map.empty) =
     Inr [''out/segment_001_speaker.wav'', ''out/segment_003_speaker.wav'',
          ''out/complete_podcast.wav''] \<and>
   fst (chatterbox_generate_podcast_audio 7200 12000 flaky_chatterbox three_line_script ''out'' True
          Map.empty) =
     Inr [''out/segment_001_speaker.wav'', ''out/segment_003_speaker.wav'',
          ''out/complete_podcast.wav'']"
proof -
  have e: "lines_have_entry (script three_line_script)"
    by (simp add: lines_have_entry_def three_line_script_def)
  have rates: "0 < sample_rate example_podcast" "0 < sr flaky_chatterbox"
    by (simp_all add: example_podcast_def flaky_chatterbox_def)
  have p: "segment_paths (podcast_line_ok example_podcast) ''out'' 0 (script three_line_script) =
           [''out/segment_001_speaker.wav'', ''out/segment_003_speaker.wav'']"
    "some_line (podcast_line_ok example_podcast) (script three_line_script)"
    by (simp_all add: three_line_script_def example_podcast_ok line_path_def some_line_def
        example_filenames example_joins)
  have q: "segment_paths (chatterbox_line_ok 7200 flaky_chatterbox) ''out'' 0
             (script three_line_script) =
           [''out/segment_001_speaker.wav'', ''out/segment_003_speaker.wav'']"
    "some_line (chatterbox_line_ok 7200 flaky_chatterbox) (script three_line_script)"
    by (simp_all add: three_line_script_def example_chatterbox_ok line_path_def some_line_def
        example_filenames example_joins)
  show ?thesis
    using skip_and_continue [of three_line_script True example_podcast 4800 "''out''" Map.empty
        flaky_chatterbox 7200 12000]
    by (simp add: e rates p q combined_path_of_def example_joins example_podcast_ok
        example_chatterbox_ok)
qed

text \<open>
  C1: for every script of \<open>N\<close> lines that all succeed, \<open>generate_podcast_audio\<close>
  returns, in both engines, exactly \<open>N\<close> paths when \<open>combine_audio\<close> is false, the
  segment paths of the lines in the order of the script; and when \<open>combine_audio\<close> is
  true it returns exactly \<open>N + 1\<close> paths, the same \<open>N\<close> segment paths followed by the
  path of the combined file, for a script that has a line, as the scripts handed to the
  engines have, and a positive sample rate.
\<close>

theorem all_lines_succeed_paths:
  "(list_all (podcast_line_ok self) (script ps) \<and> script ps \<noteq> [] \<and> 0 < sample_rate self \<longrightarrow>
      fst (podcast_generate_podcast_audio pause self ps od True fs) =
        Inr (segment_paths (\<lambda>l. True) od 0 (script ps) @ [combined_path_of od])) \<and>
   (list_all (podcast_line_ok self) (script ps) \<longrightarrow>
      fst (podcast_generate_podcast_audio pause self ps od False fs) =
        Inr (segment_paths (\<lambda>l. True) od 0 (script ps))) \<and>
   (list_all (chatterbox_line_ok pp cself) (script ps) \<and> script ps \<noteq> [] \<and> 0 < sr cself \<longrightarrow>
      fst (chatterbox_generate_podcast_audio pp cpause cself ps od True fs) =
        Inr (segment_paths (\<lambda>l. True) od 0 (script ps) @ [combined_path_of od])) \<and>
   (list_all (chatterbox_line_ok pp cself) (script ps) \<longrightarrow>
      fst (chatterbox_generate_podcast_audio pp cpause cself ps od False fs) =
        Inr (segment_paths (\<lambda>l. True) od 0 (script ps))) \<and>
   length (segment_paths (\<lambda>l. True) od 0 (script ps) @ [combined_path_of od])
     = length (script ps) + 1 \<and>
   length (segment_paths (\<lambda>l. True) od 0 (script ps)) = length (script ps)"
proof (intro conjI impI)
  assume a: "list_all (podcast_line_ok self) (script ps) \<and> script ps \<noteq> [] \<and> 0 < sample_rate self"
  then have ok: "list_all (podcast_line_ok self) (script ps)" by simp
  show "fst (podcast_generate_podcast_audio pause self ps od True fs) =
        Inr (segment_paths (\<lambda>l. True) od 0 (script ps) @ [combined_path_of od])"
    using a podcast_generate_result [OF podcast_ok_has_entry [OF ok], of True self pause od fs]
    by (simp add: segment_paths_all [OF ok] some_line_all [OF ok])
next
  assume ok: "list_all (podcast_line_ok self) (script ps)"
  show "fst (podcast_generate_podcast_audio pause self ps od False fs) =
        Inr (segment_paths (\<lambda>l. True) od 0 (script ps))"
    using podcast_generate_result [OF podcast_ok_has_entry [OF ok], of False self pause od fs]
    by (simp add: segment_paths_all [OF ok])
next
  assume a: "list_all (chatterbox_line_ok pp cself) (script ps) \<and> script ps \<noteq> [] \<and> 0 < sr cself"
  then have ok: "list_all (chatterbox_line_ok pp cself) (script ps)" by simp
  show "fst (chatterbox_generate_podcast_audio pp cpause cself ps od True fs) =
        Inr (segment_paths (\<lambda>l. True) od 0 (script ps) @ [combined_path_of od])"
    using a chatterbox_generate_result [OF chatterbox_ok_has_entry [OF ok], of True cself pp cpause od fs]
    by (simp add: segment_paths_all [OF ok] some_line_all [OF ok])
next
  assume ok: "list_all (chatterbox_line_ok pp cself) (script ps)"
  show "fst (chatterbox_generate_podcast_audio pp cpause cself ps od False fs) =
        Inr (segment_paths (\<lambda>l. True) od 0 (script ps))"
    using chatterbox_generate_result [OF chatterbox_ok_has_entry [OF ok], of False cself pp cpause od fs]
    by (simp add: segment_paths_all [OF ok])
next
  show "length (segment_paths (\<lambda>l. True) od 0 (script ps) @ [combined_path_of od])
        = length (script ps) + 1"
    by (simp add: length_segment_paths_all)
next
  show "length (segment_paths (\<lambda>l. True) od 0 (script ps)) = length (script ps)"
    by (rule length_segment_paths_all)
qed

theorem all_lines_succeed_paths_witness:
  "list_all (podcast_line_ok example_podcast) (script two_line_script) \<and>
   list_all (chatterbox_line_ok 7200 flaky_chatterbox) (script two_line_script) \<and>
   script two_line_script \<noteq> [] \<and>
   0 < sample_rate example_podcast \<and> 0 < sr flaky_chatterbox \<and>
   fst (podcast_generate_podcast_audio 4800 example_podcast two_line_script ''out'' True Map.empty) =
     Inr [''out/segment_001_speaker.wav'', ''out/segment_002_speaker.wav'',
          ''out/complete_podcast.wav''] \<and>
   fst (podcast_generate_podcast_audio 4800 example_podcast two_line_script ''out'' False Map.empty) =
     Inr [''out/segment_001_speaker.wav'', ''out/segment_002_speaker.wav''] \<and>
   fst (chatterbox_generate_podcast_audio 7200 12000 flaky_chatterbox two_line_script ''out'' True
          Map.empty) =
     Inr [''out/segment_001_speaker.wav'', ''out/segment_002_speaker.wav'',
          ''out/complete_podcast.wav''] \<and>
   fst (chatterbox_generate_podcast_audio 7200 12000 flaky_chatterbox two_line_script ''out'' False
          Map.empty) =
     Inr [''out/segment_001_speaker.wav'', ''out/segment_002_speaker.wav'']"
proof -
  have ok: "list_all (podcast_line_ok example_podcast) (script two_line_script)"
    "list_all (chatterbox_line_ok 7200 flaky_chatterbox) (script two_line_script)"
    by (simp_all add: two_line_script_def example_podcast_ok example_chatterbox_ok)
  have rates: "0 < sample_rate example_podcast" "0 < sr flaky_chatterbox"
    by (simp_all add: example_podcast_def flaky_chatterbox_def)
  have p: "segment_paths (\<lambda>l. True) ''out'' 0 (script two_line_script) =
           [''out/segment_001_speaker.wav'', ''out/segment_002_speaker.wav'']"
    "script two_line_script \<noteq> []"
    by (simp_all add: two_line_script_def line_path_def example_filenames example_joins)
  show ?thesis
    using all_lines_succeed_paths [of example_podcast two_line_script 4800 "''out''" Map.empty
        7200 flaky_chatterbox 12000]
    by (simp add: ok rates p combined_path_of_def example_joins)
qed

end
